theory Spec2Isabelle
  imports Complex_Main
begin

section \<open>JavaScript values used by the hook\<close>

text \<open>
  A JavaScript number is an IEEE 754 double. The model keeps NaN and the two infinities
  apart and reads every other double as the real number it denotes; the two zeros are
  one. Comparison is exact; division and multiplication round the exact result to the
  nearest double, ties to even (\<open>round64\<close>).
\<close>

datatype jsnum = NaN | NegInfinity | Num real | Infinity

text \<open>\<^verbatim>\<open>a < b\<close> and \<^verbatim>\<open>a <= b\<close>: a comparison with NaN is false.\<close>

fun js_lt :: "jsnum \<Rightarrow> jsnum \<Rightarrow> bool" where
  "js_lt NaN b = False"
| "js_lt a NaN = False"
| "js_lt (Num x) (Num y) = (x < y)"
| "js_lt a NegInfinity = False"
| "js_lt Infinity b = False"
| "js_lt NegInfinity b = True"
| "js_lt (Num x) Infinity = True"

fun js_le :: "jsnum \<Rightarrow> jsnum \<Rightarrow> bool" where
  "js_le NaN b = False"
| "js_le a NaN = False"
| "js_le (Num x) (Num y) = (x \<le> y)"
| "js_le NegInfinity b = True"
| "js_le a Infinity = True"
| "js_le Infinity b = False"
| "js_le (Num x) NegInfinity = False"

definition js_gt :: "jsnum \<Rightarrow> jsnum \<Rightarrow> bool" where
  "js_gt a b = js_lt b a"

definition js_ge :: "jsnum \<Rightarrow> jsnum \<Rightarrow> bool" where
  "js_ge a b = js_le b a"

text \<open>
  Rounding to a double. \<open>exponent a\<close> is the greatest \<open>e\<close> from -1022 on with
  \<open>2 ^ e \<le> a\<close> (-1022 for a smaller \<open>a\<close>, the subnormal range), found bit by bit; a
  double of that exponent is a multiple of \<open>2 ^ (e - 52)\<close> by an integer of at most 53
  bits, and the exact value is rounded to the nearest such multiple, to the even one of
  two that are equally near. A result of \<open>2 ^ 1024\<close> or more is an infinity.
\<close>

definition pow2 :: "int \<Rightarrow> real" where
  "pow2 e = (if 0 \<le> e then 2 ^ nat e else 1 / 2 ^ nat (- e))"

definition exponent :: "real \<Rightarrow> int" where
  "exponent a =
     foldl (\<lambda>e s. if pow2 (e + s) \<le> a then e + s else e) (- 1022)
       [1024, 512, 256, 128, 64, 32, 16, 8, 4, 2, 1]"

definition round_half_even :: "real \<Rightarrow> int" where
  "round_half_even y =
     (let f = \<lfloor>y\<rfloor>; d = y - of_int f
      in if d < 1 / 2 then f else if 1 / 2 < d then f + 1 else if even f then f else f + 1)"

definition round64 :: "real \<Rightarrow> jsnum" where
  "round64 x =
     (if x = 0 then Num 0
      else
        (let a = \<bar>x\<bar>;
             q = exponent a - 52;
             r = of_int (round_half_even (a / pow2 q)) * pow2 q
         in if pow2 1024 \<le> r then (if 0 < x then Infinity else NegInfinity)
            else Num (if 0 < x then r else - r)))"

text \<open>
  \<^verbatim>\<open>a / b\<close> and \<^verbatim>\<open>a * b\<close>: a finite number other than zero over zero is an infinity of
  its sign, zero over zero is NaN.
\<close>

fun js_div :: "jsnum \<Rightarrow> jsnum \<Rightarrow> jsnum" where
  "js_div NaN b = NaN"
| "js_div a NaN = NaN"
| "js_div (Num x) (Num y) =
     (if y \<noteq> 0 then round64 (x / y)
      else if x = 0 then NaN
      else if 0 < x then Infinity else NegInfinity)"
| "js_div (Num x) b = Num 0"
| "js_div Infinity (Num y) = (if 0 \<le> y then Infinity else NegInfinity)"
| "js_div NegInfinity (Num y) = (if 0 \<le> y then NegInfinity else Infinity)"
| "js_div a b = NaN"

fun js_mul :: "jsnum \<Rightarrow> jsnum \<Rightarrow> jsnum" where
  "js_mul NaN b = NaN"
| "js_mul a NaN = NaN"
| "js_mul (Num x) (Num y) = round64 (x * y)"
| "js_mul (Num x) Infinity = (if x = 0 then NaN else if 0 < x then Infinity else NegInfinity)"
| "js_mul (Num x) NegInfinity = (if x = 0 then NaN else if 0 < x then NegInfinity else Infinity)"
| "js_mul Infinity (Num y) = (if y = 0 then NaN else if 0 < y then Infinity else NegInfinity)"
| "js_mul NegInfinity (Num y) = (if y = 0 then NaN else if 0 < y then NegInfinity else Infinity)"
| "js_mul Infinity Infinity = Infinity"
| "js_mul NegInfinity NegInfinity = Infinity"
| "js_mul a b = NegInfinity"

text \<open>Truthiness: \<^verbatim>\<open>0\<close>, \<^verbatim>\<open>NaN\<close>, \<^verbatim>\<open>undefined\<close> and the empty string are falsy.\<close>

fun truthy_num :: "jsnum \<Rightarrow> bool" where
  "truthy_num NaN = False"
| "truthy_num (Num x) = (x \<noteq> 0)"
| "truthy_num a = True"

text \<open>\<^verbatim>\<open>v || d\<close> for an optional number and for an optional string (\<open>None\<close> is \<^verbatim>\<open>undefined\<close>).\<close>

definition num_or :: "jsnum option \<Rightarrow> jsnum \<Rightarrow> jsnum" where
  "num_or v d = (case v of None \<Rightarrow> d | Some n \<Rightarrow> if truthy_num n then n else d)"

definition str_or :: "string option \<Rightarrow> string \<Rightarrow> string" where
  "str_or v d = (case v of None \<Rightarrow> d | Some s \<Rightarrow> if s \<noteq> [] then s else d)"

definition truthy_str :: "string option \<Rightarrow> bool" where
  "truthy_str v = (case v of None \<Rightarrow> False | Some s \<Rightarrow> s \<noteq> [])"

section \<open>Options, hook state and the page\<close>

record triggerScrollCfg =
  scroll_mobile :: bool
  scroll_desktop :: bool
  percentThreshold :: "jsnum option"

record triggerTabChangeCfg =
  tab_mobile :: bool
  tab_desktop :: bool
  tab_delay :: "jsnum option"
  tab_title :: "string option"

text \<open>
  The \<^verbatim>\<open>options\<close> object as the caller passes it. A field that holds an object is
  \<open>None\<close> when the caller left it out; a boolean field is its truthiness.
\<close>

record options =
  mobileWidthThreshold :: "jsnum option"
  triggerScroll :: "triggerScrollCfg option"
  triggerMouseMove :: bool
  triggerTabChange :: "triggerTabChangeCfg option"
  storeInUserSession :: bool

text \<open>The default value of the \<^verbatim>\<open>options\<close> parameter (lines 29 to 35).\<close>

definition default_options :: options where
  "default_options =
     \<lparr>mobileWidthThreshold = Some (Num 768),
      triggerScroll =
        Some \<lparr>scroll_mobile = True, scroll_desktop = False, percentThreshold = Some (Num 30)\<rparr>,
      triggerMouseMove = True,
      triggerTabChange =
        Some \<lparr>tab_mobile = False, tab_desktop = True, tab_delay = Some (Num 200),
              tab_title = Some ''We miss you!''\<rparr>,
      storeInUserSession = True\<rparr>"

text \<open>
  A default parameter value is used only when the argument is \<^verbatim>\<open>undefined\<close>: an options
  object that is passed is taken as it is.
\<close>

definition options_param :: "options option \<Rightarrow> options" where
  "options_param arg = (case arg of None \<Rightarrow> default_options | Some opts \<Rightarrow> opts)"

text \<open>The three \<^verbatim>\<open>useState\<close> cells (lines 37 to 39).\<close>

record hook_state =
  hasTriggered :: bool
  originalTitle :: string
  timeoutId :: "nat option"

definition initial_state :: hook_state where
  "initial_state = \<lparr>hasTriggered = False, originalTitle = [], timeoutId = None\<rparr>"

text \<open>
  The functions an effect run creates close over the options and the state of the render
  that ran the effect; they never see a later value.
\<close>

record closure =
  cl_options :: options
  cl_state :: hook_state

datatype error = TypeError | StorageError

text \<open>
  \<^verbatim>\<open>sessionStorage\<close>: \<open>NoStorage\<close> is a null or undefined global (the optional chaining
  \<^verbatim>\<open>?.\<close> skips the call), \<open>Denied\<close> a global whose evaluation raises, and a present store
  may raise in \<^verbatim>\<open>getItem\<close> or in \<^verbatim>\<open>setItem\<close> (a full quota).
\<close>

record store =
  items :: "string \<Rightarrow> string option"
  getItem_raises :: bool
  setItem_raises :: bool

datatype storage = NoStorage | Denied | Storage store

record timer =
  timer_id :: nat
  timer_delay :: jsnum
  timer_title :: string

datatype update = SetHasTriggered bool | SetOriginalTitle string | SetTimeoutId "nat option"

text \<open>
  Everything the hook reads or writes: the window and the document, the listeners
  registered on them, the pending timers, the state updates asked of React and not yet
  rendered, the calls of \<^verbatim>\<open>onTrigger\<close> so far, the exceptions that left a handler, and
  the component instance (its committed state, props and the cleanup its last effect run
  returned).
\<close>

record world =
  innerWidth :: int
  innerHeight :: int
  scrollY :: real
  scrollHeight :: int
  hidden :: bool
  title :: string
  sessionStorage :: storage
  timers :: "timer list"
  lastTimer :: nat
  visibilitychange :: "closure list"
  mousemove :: "closure list"
  scroll :: "closure list"
  queue :: "update list"
  onTrigger_calls :: nat
  uncaught :: "error list"
  mounted :: bool
  props :: "options option"
  state :: hook_state
  cleanup :: "closure option"

definition SESSION_STORAGE_CTA_KEY :: string where
  "SESSION_STORAGE_CTA_KEY = ''useDontLeave''"

section \<open>Browser primitives\<close>

definition getItem :: "storage \<Rightarrow> string \<Rightarrow> error + string option" where
  "getItem s k =
     (case s of
        NoStorage \<Rightarrow> Inr None
      | Denied \<Rightarrow> Inl StorageError
      | Storage st \<Rightarrow> if getItem_raises st then Inl StorageError else Inr (items st k))"

definition setItem :: "storage \<Rightarrow> string \<Rightarrow> string \<Rightarrow> storage \<times> error option" where
  "setItem s k v =
     (case s of
        NoStorage \<Rightarrow> (NoStorage, None)
      | Denied \<Rightarrow> (Denied, Some StorageError)
      | Storage st \<Rightarrow>
          if setItem_raises st then (Storage st, Some StorageError)
          else (Storage (st\<lparr>items := (items st)(k \<mapsto> v)\<rparr>), None))"

text \<open>\<^verbatim>\<open>setTimeout\<close> hands out a fresh handle greater than zero.\<close>

definition setTimeout :: "string \<Rightarrow> jsnum \<Rightarrow> world \<Rightarrow> nat \<times> world" where
  "setTimeout t d w =
     (let i = Suc (lastTimer w)
      in (i, w\<lparr>timers := timers w @ [\<lparr>timer_id = i, timer_delay = d, timer_title = t\<rparr>],
               lastTimer := i\<rparr>))"

definition clearTimeout :: "nat \<Rightarrow> world \<Rightarrow> world" where
  "clearTimeout i w = w\<lparr>timers := filter (\<lambda>t. timer_id t \<noteq> i) (timers w)\<rparr>"

definition set_state :: "update \<Rightarrow> world \<Rightarrow> world" where
  "set_state u w = w\<lparr>queue := queue w @ [u]\<rparr>"

section \<open>The hook\<close>

text \<open>\<^verbatim>\<open>window.innerWidth > (options.mobileWidthThreshold || 768)\<close> (lines 54 and 89).\<close>

definition isDesktop :: "options \<Rightarrow> world \<Rightarrow> bool" where
  "isDesktop opts w =
     js_gt (Num (of_int (innerWidth w))) (num_or (mobileWidthThreshold opts) (Num 768))"

text \<open>\<^verbatim>\<open>window.innerWidth <= (mobileWidthThreshold || 768)\<close> (line 111).\<close>

definition isMobile :: "options \<Rightarrow> world \<Rightarrow> bool" where
  "isMobile opts w =
     js_le (Num (of_int (innerWidth w))) (num_or (mobileWidthThreshold opts) (Num 768))"

text \<open>Lines 53 to 73. A handle is truthy when it is a number other than zero.\<close>

definition handleVisibilityChange :: "closure \<Rightarrow> world \<Rightarrow> world \<times> error option" where
  "handleVisibilityChange c w =
     (let desk = isDesktop (cl_options c) w
      in case triggerTabChange (cl_options c) of
           None \<Rightarrow> (w, Some TypeError)
         | Some cfg \<Rightarrow>
             if (desk \<and> tab_desktop cfg) \<or> (\<not> desk \<and> tab_mobile cfg) then
               if hidden w then
                 (let (i, w1) =
                        setTimeout (str_or (tab_title cfg) ''We miss you!'')
                          (num_or (tab_delay cfg) (Num 200)) w
                  in (set_state (SetTimeoutId (Some i)) w1, None))
               else
                 (let w1 =
                        (case timeoutId (cl_state c) of
                           None \<Rightarrow> w
                         | Some i \<Rightarrow>
                             if i \<noteq> 0 then set_state (SetTimeoutId None) (clearTimeout i w)
                             else w)
                  in (w1\<lparr>title := originalTitle (cl_state c)\<rparr>, None))
             else (w, None))"

text \<open>
  Lines 97 to 101 and, word for word, lines 121 to 125: the state update is asked for
  and \<^verbatim>\<open>onTrigger\<close> is called before the store is written.
\<close>

definition trigger :: "options \<Rightarrow> world \<Rightarrow> world \<times> error option" where
  "trigger opts w =
     (let w1 = set_state (SetHasTriggered True) w;
          w2 = w1\<lparr>onTrigger_calls := Suc (onTrigger_calls w1)\<rparr>
      in if storeInUserSession opts then
           (case setItem (sessionStorage w2) SESSION_STORAGE_CTA_KEY ''true'' of
              (s, e) \<Rightarrow> (w2\<lparr>sessionStorage := s\<rparr>, e))
         else (w2, None))"

text \<open>Lines 87 to 104, at a pointer position \<open>(clientX, clientY)\<close>.\<close>

definition handleMouseMove :: "real \<Rightarrow> real \<Rightarrow> closure \<Rightarrow> world \<Rightarrow> world \<times> error option" where
  "handleMouseMove clientX clientY c w =
     (let opts = cl_options c
      in if triggerMouseMove opts \<and> isDesktop opts w then
           (let toleranceTop = 50;
                toleranceSides = 250;
                isTopLeft = (clientY \<le> toleranceTop \<and> clientX \<le> toleranceSides);
                isTopRight =
                  (clientY \<le> toleranceTop \<and> clientX \<ge> of_int (innerWidth w) - toleranceSides)
            in if isTopLeft \<or> isTopRight then trigger opts w else (w, None))
         else (w, None))"

text \<open>Lines 115 to 117.\<close>

definition scrollPercent :: "world \<Rightarrow> jsnum" where
  "scrollPercent w =
     (let scrollTop = Num (scrollY w);
          docHeight = Num (of_int (scrollHeight w - innerHeight w))
      in js_mul (js_div scrollTop docHeight) (Num 100))"

text \<open>Lines 109 to 128.\<close>

definition handleScroll :: "closure \<Rightarrow> world \<Rightarrow> world \<times> error option" where
  "handleScroll c w =
     (let opts = cl_options c;
          mob = isMobile opts w
      in case triggerScroll opts of
           None \<Rightarrow> (w, Some TypeError)
         | Some ts \<Rightarrow>
             if (mob \<and> scroll_mobile ts) \<or> (\<not> mob \<and> scroll_desktop ts) then
               if js_ge (scrollPercent w) (num_or (percentThreshold ts) (Num 30))
               then trigger opts w else (w, None)
             else (w, None))"

text \<open>
  Lines 130 to 149 of the effect body: the two detectors are registered and the cleanup
  function is returned. Reading \<^verbatim>\<open>options.triggerScroll.mobile\<close> of an options object
  without \<^verbatim>\<open>triggerScroll\<close> raises, after the pointer listener was added.
\<close>

definition attach :: "closure \<Rightarrow> world \<Rightarrow> world \<times> (error + closure option)" where
  "attach c w =
     (let opts = cl_options c;
          w1 = (if triggerMouseMove opts then w\<lparr>mousemove := mousemove w @ [c]\<rparr> else w)
      in case triggerScroll opts of
           None \<Rightarrow> (w1, Inl TypeError)
         | Some ts \<Rightarrow>
             (if scroll_mobile ts \<or> scroll_desktop ts then w1\<lparr>scroll := scroll w1 @ [c]\<rparr> else w1,
              Inr (Some c)))"

text \<open>
  The effect body, lines 42 to 149, run with the options and the state of one render, in
  a browser (the \<^verbatim>\<open>document\<close> that line 46 tests for is there, as line 76 needs it).
  It returns the page as the run left it and either the exception that ended the run or
  the cleanup function it returned (\<open>None\<close> for the bare \<^verbatim>\<open>return\<close> of line 80).
\<close>

definition effect :: "options \<Rightarrow> hook_state \<Rightarrow> world \<Rightarrow> world \<times> (error + closure option)" where
  "effect opts s w =
     (let c = \<lparr>cl_options = opts, cl_state = s\<rparr>;
          w1 = set_state (SetOriginalTitle (title w)) w;
          w2 = w1\<lparr>visibilitychange := visibilitychange w1 @ [c]\<rparr>
      in if hasTriggered s then (w2, Inr None)
         else if storeInUserSession opts then
           (case getItem (sessionStorage w2) SESSION_STORAGE_CTA_KEY of
              Inl e \<Rightarrow> (w2, Inl e)
            | Inr v \<Rightarrow> if truthy_str v then (w2, Inr None) else attach c w2)
         else attach c w2)"

text \<open>The cleanup function, lines 141 to 149.\<close>

definition run_cleanup :: "closure \<Rightarrow> world \<Rightarrow> world" where
  "run_cleanup c w =
     (let opts = cl_options c;
          w1 = (if triggerMouseMove opts then w\<lparr>mousemove := remove1 c (mousemove w)\<rparr> else w);
          w2 = (case triggerScroll opts of
                  None \<Rightarrow> w1
                | Some ts \<Rightarrow>
                    if scroll_mobile ts \<or> scroll_desktop ts
                    then w1\<lparr>scroll := remove1 c (scroll w1)\<rparr> else w1)
      in w2\<lparr>visibilitychange := remove1 c (visibilitychange w2)\<rparr>)"

section \<open>The host: React and the browser's event loop\<close>

text \<open>
  What React does with the hook is not in the repository; the model takes its documented
  behaviour. A state setter queues an update. A render applies the queued updates; when
  the state is unchanged nothing more happens, otherwise the effect's dependency list
  (which holds the three state cells) has changed, so the cleanup the last effect run
  returned is called, if there is one, and the effect body runs again. An exception in
  the effect body unmounts the component. One run of the effect body queues
  \<^verbatim>\<open>setOriginalTitle\<close> again, so React renders until the state is stable: three renders
  are always enough (lemma \<open>queue_flush\<close>).
\<close>

fun apply_update :: "hook_state \<Rightarrow> update \<Rightarrow> hook_state" where
  "apply_update s (SetHasTriggered b) = s\<lparr>hasTriggered := b\<rparr>"
| "apply_update s (SetOriginalTitle t) = s\<lparr>originalTitle := t\<rparr>"
| "apply_update s (SetTimeoutId i) = s\<lparr>timeoutId := i\<rparr>"

definition run_effect :: "world \<Rightarrow> world" where
  "run_effect w =
     (case effect (options_param (props w)) (state w) w of
        (w1, Inr c) \<Rightarrow> w1\<lparr>cleanup := c\<rparr>
      | (w1, Inl e) \<Rightarrow> w1\<lparr>cleanup := None, mounted := False, uncaught := uncaught w1 @ [e]\<rparr>)"

definition teardown :: "world \<Rightarrow> world" where
  "teardown w = (case cleanup w of None \<Rightarrow> w | Some c \<Rightarrow> (run_cleanup c w)\<lparr>cleanup := None\<rparr>)"

definition commit :: "world \<Rightarrow> world" where
  "commit w =
     (if \<not> mounted w then w\<lparr>queue := []\<rparr>
      else
        (let s = foldl apply_update (state w) (queue w)
         in if s = state w then w\<lparr>queue := []\<rparr>
            else run_effect ((teardown w)\<lparr>state := s, queue := []\<rparr>)))"

definition flush :: "world \<Rightarrow> world" where
  "flush w = commit (commit (commit w))"

text \<open>
  The first render and effect run of a component instance; the host rendering the
  component again with an options object of its own (a new object, so the dependency
  list has changed and the effect runs again); and the unmount.
\<close>

definition mount :: "options option \<Rightarrow> world \<Rightarrow> world" where
  "mount p w =
     run_effect (w\<lparr>mounted := True, props := p, state := initial_state, cleanup := None, queue := []\<rparr>)"

definition rerender :: "options option \<Rightarrow> world \<Rightarrow> world" where
  "rerender p w =
     (if \<not> mounted w then w
      else run_effect
             ((teardown w)\<lparr>props := p, state := foldl apply_update (state w) (queue w), queue := []\<rparr>))"

definition unmount :: "world \<Rightarrow> world" where
  "unmount w = (if \<not> mounted w then w else (teardown w)\<lparr>mounted := False, queue := []\<rparr>)"

text \<open>
  The browser calls every listener registered for an event, in the order of registration;
  an exception that leaves a listener is reported and the next listener still runs.
\<close>

fun dispatch :: "(closure \<Rightarrow> world \<Rightarrow> world \<times> error option) \<Rightarrow> closure list \<Rightarrow> world \<Rightarrow> world" where
  "dispatch h [] w = w"
| "dispatch h (c # cs) w =
     (case h c w of
        (w1, None) \<Rightarrow> dispatch h cs w1
      | (w1, Some e) \<Rightarrow> dispatch h cs (w1\<lparr>uncaught := uncaught w1 @ [e]\<rparr>))"

text \<open>A pending timer fires: the callback of lines 60 to 62 writes the title.\<close>

definition fire_timer :: "nat \<Rightarrow> world \<Rightarrow> world" where
  "fire_timer i w =
     (case find (\<lambda>t. timer_id t = i) (timers w) of
        None \<Rightarrow> w
      | Some t \<Rightarrow> w\<lparr>timers := filter (\<lambda>t. timer_id t \<noteq> i) (timers w), title := timer_title t\<rparr>)"

datatype event =
    MouseMove real real
  | Scroll real
  | VisibilityChange bool
  | TimerFires nat
  | Resize int
  | Layout int int
  | SetTitle string
  | Render
  | Rerender "options option"
  | Unmount

fun step :: "event \<Rightarrow> world \<Rightarrow> world" where
  "step (MouseMove x y) w = dispatch (handleMouseMove x y) (mousemove w) w"
| "step (Scroll y) w = dispatch handleScroll (scroll w) (w\<lparr>scrollY := y\<rparr>)"
| "step (VisibilityChange h) w =
     dispatch handleVisibilityChange (visibilitychange w) (w\<lparr>hidden := h\<rparr>)"
| "step (TimerFires i) w = fire_timer i w"
| "step (Resize n) w = w\<lparr>innerWidth := n\<rparr>"
| "step (Layout sh ih) w = w\<lparr>scrollHeight := sh, innerHeight := ih\<rparr>"
| "step (SetTitle t) w = w\<lparr>title := t\<rparr>"
| "step Render w = flush w"
| "step (Rerender p) w = rerender p w"
| "step Unmount w = unmount w"

text \<open>
  \<open>run\<close> delivers the events as they come, React rendering only at a \<open>Render\<close>;
  \<open>run_sync\<close> lets React render after every event, before the next one is delivered.
\<close>

definition run :: "event list \<Rightarrow> world \<Rightarrow> world" where
  "run es w = foldl (\<lambda>v e. step e v) w es"

definition run_sync :: "event list \<Rightarrow> world \<Rightarrow> world" where
  "run_sync es w = foldl (\<lambda>v e. flush (step e v)) (flush w) es"

text \<open>A page on which no hook has been mounted yet.\<close>

definition page ::
  "int \<Rightarrow> int \<Rightarrow> real \<Rightarrow> int \<Rightarrow> bool \<Rightarrow> string \<Rightarrow> storage \<Rightarrow> world" where
  "page iw ih sy sh hid t st =
     \<lparr>innerWidth = iw, innerHeight = ih, scrollY = sy, scrollHeight = sh, hidden = hid,
      title = t, sessionStorage = st, timers = [], lastTimer = 0,
      visibilitychange = [], mousemove = [], scroll = [], queue = [],
      onTrigger_calls = 0, uncaught = [], mounted = False, props = None,
      state = initial_state, cleanup = None\<rparr>"

definition empty_store :: storage where
  "empty_store = Storage \<lparr>items = Map.empty, getItem_raises = False, setItem_raises = False\<rparr>"

definition marked_store :: storage where
  "marked_store =
     Storage \<lparr>items = [SESSION_STORAGE_CTA_KEY \<mapsto> ''true''], getItem_raises = False,
              setItem_raises = False\<rparr>"

text \<open>
  The events of one activation: everything but a render, which ends the activation by
  running the effect again.
\<close>

fun within_activation :: "event \<Rightarrow> bool" where
  "within_activation Render = False"
| "within_activation (Rerender p) = False"
| "within_activation e = True"

text \<open>
  The options a run is given are complete enough to register the detectors when
  \<^verbatim>\<open>triggerScroll\<close> is there; \<open>event_ok\<close> asks it of the options of every re-render.
\<close>

definition has_triggerScroll :: "options option \<Rightarrow> bool" where
  "has_triggerScroll p = (triggerScroll (options_param p) \<noteq> None)"

fun event_ok :: "event \<Rightarrow> bool" where
  "event_ok (Rerender p) = has_triggerScroll p"
| "event_ok e = True"

text \<open>
  The detectors that are registered are the ones the pending cleanup will remove, and a
  cleanup is pending only for a mounted hook that has not triggered.
\<close>

definition detectors_ok :: "world \<Rightarrow> bool" where
  "detectors_ok w =
     (case cleanup w of
        None \<Rightarrow> mousemove w = [] \<and> scroll w = []
      | Some c \<Rightarrow>
          mounted w \<and> \<not> hasTriggered (state w) \<and>
          mousemove w = (if triggerMouseMove (cl_options c) then [c] else []) \<and>
          scroll w =
            (case triggerScroll (cl_options c) of
               None \<Rightarrow> []
             | Some ts \<Rightarrow> if scroll_mobile ts \<or> scroll_desktop ts then [c] else []))"

text \<open>
  The invariant of a run in which React renders after every event. Between an event and
  the render that follows it (\<open>gate_ok\<close>): the detectors are in order, no queued update
  resets the flag, and \<^verbatim>\<open>onTrigger\<close> was called at most once, and if once, the hook is
  unmounted or the flag is set or about to be. After a render (\<open>settled\<close>): the same, the
  flag being set, and the queue holds at most the title update of the effect run.
  \<open>same_hook\<close> relates two pages that differ in nothing the detectors depend on.
\<close>

definition no_reset :: "update list \<Rightarrow> bool" where
  "no_reset q = (SetHasTriggered False \<notin> set q)"

definition gate_ok :: "world \<Rightarrow> bool" where
  "gate_ok w =
     (has_triggerScroll (props w) \<and> detectors_ok w \<and> no_reset (queue w) \<and>
      onTrigger_calls w \<le> 1 \<and>
      (onTrigger_calls w = 1 \<longrightarrow>
         \<not> mounted w \<or> hasTriggered (state w) \<or> SetHasTriggered True \<in> set (queue w)))"

definition settled :: "world \<Rightarrow> bool" where
  "settled w =
     (has_triggerScroll (props w) \<and> detectors_ok w \<and>
      (queue w = [] \<or> queue w = [SetOriginalTitle (title w)]) \<and>
      onTrigger_calls w \<le> 1 \<and>
      (onTrigger_calls w = 1 \<longrightarrow> \<not> mounted w \<or> hasTriggered (state w)))"

definition same_hook :: "world \<Rightarrow> world \<Rightarrow> bool" where
  "same_hook v w =
     (props v = props w \<and> cleanup v = cleanup w \<and> mounted v = mounted w \<and>
      state v = state w \<and> mousemove v = mousemove w \<and> scroll v = scroll w)"

section \<open>Facts about the values and the primitives\<close>

lemma js_le_NaN [simp]: "js_le a NaN = False"
  by (cases a) auto

lemma js_lt_NaN [simp]: "js_lt a NaN = False"
  by (cases a) auto

lemma num_or_not_NaN: "d \<noteq> NaN \<Longrightarrow> num_or v d \<noteq> NaN"
  by (cases v) (auto simp: num_or_def elim: truthy_num.elims)

lemma js_le_not_lt: "b \<noteq> NaN \<Longrightarrow> js_le (Num x) b = (\<not> js_lt b (Num x))"
  by (cases b) auto

text \<open>The scroll handler's \<open>isMobile\<close> is the negation of the other handlers' \<open>isDesktop\<close>.\<close>

lemma isMobile_not_isDesktop: "isMobile opts w = (\<not> isDesktop opts w)"
  by (simp add: isMobile_def isDesktop_def js_gt_def js_le_not_lt num_or_not_NaN)

lemma calls_trigger: "onTrigger_calls (fst (trigger opts w)) = Suc (onTrigger_calls w)"
  by (simp add: trigger_def set_state_def Let_def split: prod.splits)

lemma queue_trigger: "queue (fst (trigger opts w)) = queue w @ [SetHasTriggered True]"
  by (simp add: trigger_def set_state_def Let_def split: prod.splits)

lemma error_trigger:
  "snd (trigger opts w) =
     (if storeInUserSession opts
      then snd (setItem (sessionStorage w) SESSION_STORAGE_CTA_KEY ''true'') else None)"
  by (simp add: trigger_def set_state_def Let_def split: prod.splits)

lemma handleMouseMove_cases:
  "handleMouseMove x y c w = (w, None) \<or> handleMouseMove x y c w = trigger (cl_options c) w"
  by (simp add: handleMouseMove_def Let_def)

lemma handleScroll_cases:
  "triggerScroll (cl_options c) \<noteq> None \<Longrightarrow>
   handleScroll c w = (w, None) \<or> handleScroll c w = trigger (cl_options c) w"
  by (auto simp: handleScroll_def Let_def)

section \<open>Rounding to a double\<close>

text \<open>
  \<open>exponent\<close> is the exponent of the binade of its argument, the search being a binary
  search over the exponents of the doubles; and \<open>round64\<close> returns a multiple of the
  spacing of that binade that is at most half a spacing away from the exact value.
\<close>

lemma pow2_powi: "pow2 e = 2 powi e"
  by (simp add: pow2_def power_int_def field_simps)

lemma pow2_pos: "0 < pow2 e"
  by (simp add: pow2_powi)

lemma pow2_add: "pow2 (d + e) = pow2 d * pow2 e"
  by (simp add: pow2_powi power_int_add)

lemma pow2_mono: "d \<le> e \<Longrightarrow> pow2 d \<le> pow2 e"
  by (simp add: pow2_powi power_int_increasing)

lemma pow2_less: "pow2 d < pow2 e \<Longrightarrow> d < e"
  using pow2_mono [of e d] by (cases "d < e") auto

lemma search_bounds:
  assumes "pow2 e \<le> a" and "a < pow2 (e + 2 * 2 ^ k)"
  shows "pow2 (foldl (\<lambda>e s. if pow2 (e + s) \<le> a then e + s else e) e
             (map (\<lambda>i. 2 ^ i) (rev [0..<Suc k]))) \<le> a \<and>
         a < pow2 (foldl (\<lambda>e s. if pow2 (e + s) \<le> a then e + s else e) e
             (map (\<lambda>i. 2 ^ i) (rev [0..<Suc k])) + 1)"
  using assms
proof (induction k arbitrary: e)
  case 0
  then show ?case by (simp add: ac_simps)
next
  case (Suc k)
  let ?e = "if pow2 (e + 2 * 2 ^ k) \<le> a then e + 2 * 2 ^ k else e"
  have 1: "pow2 ?e \<le> a"
    using Suc.prems by simp
  have 2: "a < pow2 (?e + 2 * 2 ^ k)"
    using Suc.prems by (auto simp: add.assoc)
  have "rev [0..<Suc (Suc k)] = Suc k # rev [0..<Suc k]"
    by simp
  then show ?case
    using Suc.IH [OF 1 2] by (simp del: upt_Suc split: if_splits)
qed

lemma exponent_list:
  "[1024, 512, 256, 128, 64, 32, 16, 8, 4, 2, 1] = map (\<lambda>i. (2::int) ^ i) (rev [0..<Suc 10])"
  by (simp add: upt_rec)

lemma exponent_bounds:
  assumes "pow2 (- 1022) \<le> a" and "a < pow2 1026"
  shows "pow2 (exponent a) \<le> a \<and> a < pow2 (exponent a + 1)"
proof -
  have "a < pow2 (- 1022 + 2 * 2 ^ 10)"
    using assms(2) by simp
  from search_bounds [OF assms(1) this] show ?thesis
    unfolding exponent_def exponent_list .
qed

lemma exponent_unique:
  assumes "pow2 (- 1022) \<le> a" and "a < pow2 1026" and "pow2 e \<le> a" and "a < pow2 (e + 1)"
  shows "exponent a = e"
proof -
  from exponent_bounds [OF assms(1,2)] assms(3,4)
  have "pow2 (exponent a) < pow2 (e + 1)" "pow2 e < pow2 (exponent a + 1)"
    by linarith+
  then have "exponent a < e + 1" "e < exponent a + 1"
    by (auto dest: pow2_less)
  then show ?thesis by simp
qed

lemma search_below:
  "a < pow2 (e + 1) \<Longrightarrow> \<forall>s\<in>set ss. 1 \<le> s \<Longrightarrow>
   foldl (\<lambda>e s. if pow2 (e + s) \<le> a then e + s else e) e ss = e"
proof (induction ss)
  case Nil
  show ?case by simp
next
  case (Cons s ss)
  from Cons.prems have "pow2 (e + 1) \<le> pow2 (e + s)"
    by (intro pow2_mono) simp
  with Cons.prems have "\<not> pow2 (e + s) \<le> a" by linarith
  with Cons show ?case by simp
qed

lemma exponent_subnormal: "a < pow2 (- 1021) \<Longrightarrow> exponent a = - 1022"
  unfolding exponent_def by (rule search_below) simp_all

lemma round_half_even_near: "\<bar>of_int (round_half_even y) - y\<bar> \<le> 1 / 2"
  unfolding round_half_even_def Let_def by (auto simp: abs_if) linarith+

lemma round64_near:
  assumes "round64 x = Num r"
  shows "\<bar>r - x\<bar> \<le> pow2 (exponent \<bar>x\<bar> - 52) / 2"
proof (cases "x = 0")
  case True
  with assms show ?thesis
    using pow2_pos [of "exponent \<bar>x\<bar> - 52"] by (simp add: round64_def)
next
  case False
  let ?q = "exponent \<bar>x\<bar> - 52"
  let ?m = "round_half_even (\<bar>x\<bar> / pow2 ?q)"
  from assms False have r: "r = (if 0 < x then of_int ?m * pow2 ?q else - (of_int ?m * pow2 ?q))"
    by (auto simp: round64_def Let_def split: if_splits)
  have "\<bar>of_int ?m - \<bar>x\<bar> / pow2 ?q\<bar> * pow2 ?q \<le> 1 / 2 * pow2 ?q"
    using round_half_even_near [of "\<bar>x\<bar> / pow2 ?q"] pow2_pos [of ?q]
    by (intro mult_right_mono) simp_all
  moreover have "\<bar>of_int ?m - \<bar>x\<bar> / pow2 ?q\<bar> * pow2 ?q
      = \<bar>(of_int ?m - \<bar>x\<bar> / pow2 ?q) * pow2 ?q\<bar>"
    using pow2_pos [of ?q] by (intro abs_mult_pos) simp
  moreover have "(of_int ?m - \<bar>x\<bar> / pow2 ?q) * pow2 ?q = of_int ?m * pow2 ?q - \<bar>x\<bar>"
    using pow2_pos [of ?q] by (simp add: field_simps)
  ultimately have "\<bar>of_int ?m * pow2 ?q - \<bar>x\<bar>\<bar> \<le> pow2 ?q / 2"
    by simp
  with r show ?thesis
    by (auto simp: abs_if split: if_splits)
qed

section \<open>Viewport classification\<close>

text \<open>
  C4, as the code has it. For every viewport width and every configured
  \<^verbatim>\<open>mobileWidthThreshold\<close> \<open>t\<close> that is a number other than zero, the viewport is Desktop
  if and only if the width is greater than \<open>t\<close> and Mobile otherwise (a width equal to
  \<open>t\<close> is Mobile), in the visibility and pointer handlers (\<open>isDesktop\<close>) and in the scroll
  handler (\<open>isMobile\<close>), which always agree. A threshold that is zero, NaN or missing is
  replaced by 768 (\<^verbatim>\<open>mobileWidthThreshold || 768\<close>); an infinite threshold makes every
  width Mobile, or every width Desktop.
\<close>

theorem viewport_classification:
  "isMobile opts w = (\<not> isDesktop opts w) \<and>
   (mobileWidthThreshold opts = Some (Num t) \<and> t \<noteq> 0 \<longrightarrow>
      isDesktop opts w = (t < of_int (innerWidth w)) \<and>
      isMobile opts w = (of_int (innerWidth w) \<le> t)) \<and>
   (mobileWidthThreshold opts \<in> {None, Some (Num 0), Some NaN} \<longrightarrow>
      isDesktop opts w = (768 < innerWidth w) \<and> isMobile opts w = (innerWidth w \<le> 768)) \<and>
   (mobileWidthThreshold opts = Some Infinity \<longrightarrow> \<not> isDesktop opts w \<and> isMobile opts w) \<and>
   (mobileWidthThreshold opts = Some NegInfinity \<longrightarrow> isDesktop opts w \<and> \<not> isMobile opts w)"
  using isMobile_not_isDesktop [of opts w]
  by (auto simp: isDesktop_def isMobile_def js_gt_def num_or_def)

theorem viewport_classification_witness:
  "isDesktop (default_options\<lparr>mobileWidthThreshold := Some (Num 1000)\<rparr>)
     (page 1024 768 0 2000 False ''Home'' empty_store) \<and>
   isMobile (default_options\<lparr>mobileWidthThreshold := Some (Num 1000)\<rparr>)
     (page 1000 768 0 2000 False ''Home'' empty_store) \<and>
   isMobile (default_options\<lparr>mobileWidthThreshold := Some (Num 0)\<rparr>)
     (page 768 768 0 2000 False ''Home'' empty_store) \<and>
   isMobile (default_options\<lparr>mobileWidthThreshold := Some Infinity\<rparr>)
     (page 1024 768 0 2000 False ''Home'' empty_store) \<and>
   isDesktop (default_options\<lparr>mobileWidthThreshold := Some NegInfinity\<rparr>)
     (page 0 768 0 2000 False ''Home'' empty_store)"
  using
    viewport_classification [of "default_options\<lparr>mobileWidthThreshold := Some (Num 1000)\<rparr>"
      "page 1024 768 0 2000 False ''Home'' empty_store" 1000]
    viewport_classification [of "default_options\<lparr>mobileWidthThreshold := Some (Num 1000)\<rparr>"
      "page 1000 768 0 2000 False ''Home'' empty_store" 1000]
    viewport_classification [of "default_options\<lparr>mobileWidthThreshold := Some (Num 0)\<rparr>"
      "page 768 768 0 2000 False ''Home'' empty_store" 0]
    viewport_classification [of "default_options\<lparr>mobileWidthThreshold := Some Infinity\<rparr>"
      "page 1024 768 0 2000 False ''Home'' empty_store" 0]
    viewport_classification [of "default_options\<lparr>mobileWidthThreshold := Some NegInfinity\<rparr>"
      "page 0 768 0 2000 False ''Home'' empty_store" 0]
  by (simp add: default_options_def page_def)

text \<open>
  C4 as the specification states it fails for a threshold of zero: a viewport 100 wide
  is wider than the threshold 0, and the code classifies it as Mobile, having replaced
  the threshold by 768.
\<close>

theorem zero_threshold_counterexample:
  "\<not> (isDesktop (default_options\<lparr>mobileWidthThreshold := Some (Num 0)\<rparr>)
         (page 100 768 0 2000 False ''Home'' empty_store)
       = ((0::real) < 100))"
  by (simp add: isDesktop_def js_gt_def num_or_def default_options_def page_def)

section \<open>The scroll detector\<close>

text \<open>
  C5, as the code has it. For every scroll event delivered to the handler, \<^verbatim>\<open>onTrigger\<close>
  is called (once, by the trigger sequence) if and only if the enablement flag that
  matches the classification holds (mobile-scroll on Mobile, desktop-scroll on Desktop)
  and \<open>scrollPercent\<close> is at least the threshold. \<open>scrollPercent\<close> is computed in double
  arithmetic: the quotient \<open>scrollTop / (scrollHeight - innerHeight)\<close> rounded to a double,
  times 100, rounded again. The threshold is the configured \<^verbatim>\<open>percentThreshold\<close> when
  that is a number other than zero, and 30 when it is zero, NaN or missing. When the
  document is not scrollable (the difference is zero) and the scroll position is zero,
  the quotient is NaN and the handler does nothing.
\<close>

theorem scroll_trigger:
  "triggerScroll (cl_options c) = Some ts \<Longrightarrow>
   (onTrigger_calls (fst (handleScroll c w)) =
      (if (if isMobile (cl_options c) w then scroll_mobile ts else scroll_desktop ts) \<and>
          js_ge (scrollPercent w) (num_or (percentThreshold ts) (Num 30))
       then Suc (onTrigger_calls w) else onTrigger_calls w)) \<and>
   handleScroll c w =
      (if (if isMobile (cl_options c) w then scroll_mobile ts else scroll_desktop ts) \<and>
          js_ge (scrollPercent w) (num_or (percentThreshold ts) (Num 30))
       then trigger (cl_options c) w else (w, None)) \<and>
   (scrollHeight w - innerHeight w \<noteq> 0 \<longrightarrow>
      scrollPercent w =
        js_mul (round64 (scrollY w / of_int (scrollHeight w - innerHeight w))) (Num 100)) \<and>
   (percentThreshold ts = Some (Num p) \<and> p \<noteq> 0 \<longrightarrow>
      js_ge (Num x) (num_or (percentThreshold ts) (Num 30)) = (p \<le> x)) \<and>
   (percentThreshold ts \<in> {None, Some (Num 0), Some NaN} \<longrightarrow>
      js_ge (Num x) (num_or (percentThreshold ts) (Num 30)) = (30 \<le> x)) \<and>
   (scrollHeight w - innerHeight w = 0 \<and> scrollY w = 0 \<longrightarrow> handleScroll c w = (w, None))"
  by (auto simp: handleScroll_def calls_trigger scrollPercent_def js_ge_def num_or_def Let_def)

text \<open>
  The specification's scenario: width 400, mobile scroll enabled, threshold 30. At 35
  percent the callback is called, at 12.5 percent it is not, and on a page that cannot
  scroll nothing happens.
\<close>

theorem scroll_trigger_witness:
  "onTrigger_calls (fst (handleScroll \<lparr>cl_options = default_options, cl_state = initial_state\<rparr>
      (page 400 800 350 1800 False ''Home'' empty_store))) = 1 \<and>
   scrollPercent (page 400 800 350 1800 False ''Home'' empty_store) = Num 35 \<and>
   onTrigger_calls (fst (handleScroll \<lparr>cl_options = default_options, cl_state = initial_state\<rparr>
      (page 400 800 125 1800 False ''Home'' empty_store))) = 0 \<and>
   handleScroll \<lparr>cl_options = default_options, cl_state = initial_state\<rparr>
      (page 400 800 0 800 False ''Home'' empty_store) =
     (page 400 800 0 800 False ''Home'' empty_store, None)"
proof -
  let ?c = "\<lparr>cl_options = default_options, cl_state = initial_state\<rparr>"
  let ?ts = "\<lparr>scroll_mobile = True, scroll_desktop = False, percentThreshold = Some (Num 30)\<rparr>"
  have ts: "triggerScroll (cl_options ?c) = Some ?ts"
    by (simp add: default_options_def)
  have p1: "scrollPercent (page 400 800 350 1800 False ''Home'' empty_store) = Num 35"
    and p2: "scrollPercent (page 400 800 125 1800 False ''Home'' empty_store) = Num 12.5"
    by code_simp+
  have m: "isMobile default_options (page 400 800 sy sh False ''Home'' empty_store)" for sy sh
    by (simp add: isMobile_def num_or_def default_options_def page_def)
  have z: "onTrigger_calls (page 400 800 sy sh False ''Home'' empty_store) = 0" for sy sh
    by (simp add: page_def)
  have h: "scrollHeight (page 400 800 0 800 False ''Home'' empty_store)
       - innerHeight (page 400 800 0 800 False ''Home'' empty_store) = 0 \<and>
     scrollY (page 400 800 0 800 False ''Home'' empty_store) = 0"
    by (simp add: page_def)
  have 1: "onTrigger_calls (fst (handleScroll ?c
      (page 400 800 350 1800 False ''Home'' empty_store))) = 1"
    using scroll_trigger [OF ts, of "page 400 800 350 1800 False ''Home'' empty_store" 30 35,
      THEN conjunct1]
    by (simp add: p1 m z js_ge_def num_or_def)
  have 2: "onTrigger_calls (fst (handleScroll ?c
      (page 400 800 125 1800 False ''Home'' empty_store))) = 0"
    using scroll_trigger [OF ts, of "page 400 800 125 1800 False ''Home'' empty_store" 30 35,
      THEN conjunct1]
    by (simp add: p2 m z js_ge_def num_or_def)
  have 3: "handleScroll ?c (page 400 800 0 800 False ''Home'' empty_store) =
     (page 400 800 0 800 False ''Home'' empty_store, None)"
    using scroll_trigger [OF ts, of "page 400 800 0 800 False ''Home'' empty_store" 30 35] h
    by blast
  from 1 p1 2 3 show ?thesis
    by blast
qed

text \<open>
  C5 as the specification states it fails three times. With a configured threshold of 0
  a scroll to 1 percent is at least the threshold and does not call \<^verbatim>\<open>onTrigger\<close>, the
  code comparing with 30. On a page that cannot scroll (the difference of the heights is
  zero) a scroll position of 5 gives the quotient Infinity, which is at least every
  threshold: \<^verbatim>\<open>onTrigger\<close> is called. And with a threshold of 29, a scroll position of
  29 over a scrollable height of 100 is exactly 29 percent, but the doubles give
  28.999999999999996 and \<^verbatim>\<open>onTrigger\<close> is not called.
\<close>

theorem scroll_trigger_counterexample:
  "js_ge (scrollPercent (page 400 800 10 1800 False ''Home'' empty_store)) (Num 0) \<and>
   onTrigger_calls
     (fst (handleScroll
        \<lparr>cl_options = default_options\<lparr>triggerScroll :=
           Some \<lparr>scroll_mobile = True, scroll_desktop = False, percentThreshold = Some (Num 0)\<rparr>\<rparr>,
         cl_state = initial_state\<rparr>
        (page 400 800 10 1800 False ''Home'' empty_store))) = 0 \<and>
   scrollHeight (page 400 800 5 800 False ''Home'' empty_store)
     - innerHeight (page 400 800 5 800 False ''Home'' empty_store) = 0 \<and>
   onTrigger_calls
     (fst (handleScroll \<lparr>cl_options = default_options, cl_state = initial_state\<rparr>
        (page 400 800 5 800 False ''Home'' empty_store))) = 1 \<and>
   (29::real) \<le> 29 / (900 - 800) * 100 \<and>
   onTrigger_calls
     (fst (handleScroll
        \<lparr>cl_options = default_options\<lparr>triggerScroll :=
           Some \<lparr>scroll_mobile = True, scroll_desktop = False, percentThreshold = Some (Num 29)\<rparr>\<rparr>,
         cl_state = initial_state\<rparr>
        (page 400 800 29 900 False ''Home'' empty_store))) = 0"
  by code_simp

section \<open>An activation that finds the session marker\<close>

text \<open>The visibility handler calls no callback and registers nothing.\<close>

lemma handleVisibilityChange_frame:
  "handleVisibilityChange c w = (w1, e) \<Longrightarrow>
   onTrigger_calls w1 = onTrigger_calls w \<and> mousemove w1 = mousemove w \<and> scroll w1 = scroll w"
  by (auto simp: handleVisibilityChange_def setTimeout_def clearTimeout_def set_state_def Let_def
      split: option.splits if_splits)

lemma dispatch_visibility_frame:
  "onTrigger_calls (dispatch handleVisibilityChange cs w) = onTrigger_calls w \<and>
   mousemove (dispatch handleVisibilityChange cs w) = mousemove w \<and>
   scroll (dispatch handleVisibilityChange cs w) = scroll w"
proof (induction cs arbitrary: w)
  case Nil
  show ?case by simp
next
  case (Cons c cs)
  obtain w1 e where h: "handleVisibilityChange c w = (w1, e)"
    by (cases "handleVisibilityChange c w")
  from handleVisibilityChange_frame [OF h] Cons.IH show ?case
    by (cases e) (simp_all add: h)
qed

lemma run_cleanup_detectors:
  "mousemove w = [] \<Longrightarrow> scroll w = [] \<Longrightarrow>
   mousemove (run_cleanup c w) = [] \<and> scroll (run_cleanup c w) = [] \<and>
   onTrigger_calls (run_cleanup c w) = onTrigger_calls w"
  by (simp add: run_cleanup_def Let_def split: option.splits)

lemma step_no_detectors:
  "within_activation e \<Longrightarrow> mousemove w = [] \<Longrightarrow> scroll w = [] \<Longrightarrow>
   onTrigger_calls (step e w) = onTrigger_calls w \<and> mousemove (step e w) = [] \<and>
   scroll (step e w) = []"
  by (cases e)
     (simp_all add: dispatch_visibility_frame fire_timer_def unmount_def teardown_def
        run_cleanup_detectors split: option.splits)

lemma run_no_detectors:
  "list_all within_activation es \<Longrightarrow> mousemove w = [] \<Longrightarrow> scroll w = [] \<Longrightarrow>
   onTrigger_calls (run es w) = onTrigger_calls w \<and> mousemove (run es w) = [] \<and>
   scroll (run es w) = []"
proof (induction es arbitrary: w)
  case Nil
  then show ?case by (simp add: run_def)
next
  case (Cons e es)
  from Cons.prems have s: "onTrigger_calls (step e w) = onTrigger_calls w \<and>
      mousemove (step e w) = [] \<and> scroll (step e w) = []"
    by (simp add: step_no_detectors)
  have "run (e # es) w = run es (step e w)" by (simp add: run_def)
  with Cons.IH [of "step e w"] Cons.prems s show ?case by simp
qed

text \<open>
  C3. For every activation (every run of the effect body, whatever the state of the
  render) with \<^verbatim>\<open>storeInUserSession\<close> enabled and the marker present in the session
  store (a non-empty string under the key, which \<^verbatim>\<open>getItem\<close> returns), the run registers
  the visibility listener, asks for the title to be recorded, and returns at line 80:
  it attaches neither the pointer nor the scroll detector and does not call
  \<^verbatim>\<open>onTrigger\<close>. On a page with no detector attached before, no event delivered during
  that activation calls \<^verbatim>\<open>onTrigger\<close> or attaches a detector.
\<close>

theorem marker_present:
  assumes "storeInUserSession opts" and "sessionStorage w = Storage st"
    and "\<not> getItem_raises st" and "items st SESSION_STORAGE_CTA_KEY = Some v" and "v \<noteq> []"
  shows "effect opts s w =
           (w\<lparr>queue := queue w @ [SetOriginalTitle (title w)],
              visibilitychange := visibilitychange w @ [\<lparr>cl_options = opts, cl_state = s\<rparr>]\<rparr>,
            Inr None) \<and>
         (mousemove w = [] \<and> scroll w = [] \<and> list_all within_activation es \<longrightarrow>
            onTrigger_calls (run es (fst (effect opts s w))) = onTrigger_calls w \<and>
            mousemove (run es (fst (effect opts s w))) = [] \<and>
            scroll (run es (fst (effect opts s w))) = [])"
proof -
  have e: "effect opts s w =
           (w\<lparr>queue := queue w @ [SetOriginalTitle (title w)],
              visibilitychange := visibilitychange w @ [\<lparr>cl_options = opts, cl_state = s\<rparr>]\<rparr>,
            Inr None)"
    using assms by (simp add: effect_def set_state_def getItem_def truthy_str_def Let_def)
  have "mousemove w = [] \<and> scroll w = [] \<and> list_all within_activation es \<longrightarrow>
         onTrigger_calls (run es (fst (effect opts s w))) = onTrigger_calls w \<and>
         mousemove (run es (fst (effect opts s w))) = [] \<and>
         scroll (run es (fst (effect opts s w))) = []"
    using run_no_detectors [of es "fst (effect opts s w)"] by (simp add: e)
  with e show ?thesis by simp
qed

text \<open>
  A visitor who has triggered before in this session, default options, a desktop
  viewport: a pointer move into the corner, a deep scroll and a hidden tab call nothing.
\<close>

theorem marker_present_witness:
  "snd (effect default_options initial_state (page 1024 768 0 2000 False ''Home'' marked_store))
     = Inr None \<and>
   visibilitychange
     (fst (effect default_options initial_state (page 1024 768 0 2000 False ''Home'' marked_store)))
     = [\<lparr>cl_options = default_options, cl_state = initial_state\<rparr>] \<and>
   onTrigger_calls
     (run [MouseMove 100 10, Scroll 900, VisibilityChange True]
        (fst (effect default_options initial_state
           (page 1024 768 0 2000 False ''Home'' marked_store)))) = 0 \<and>
   mousemove
     (run [MouseMove 100 10, Scroll 900, VisibilityChange True]
        (fst (effect default_options initial_state
           (page 1024 768 0 2000 False ''Home'' marked_store)))) = [] \<and>
   scroll
     (run [MouseMove 100 10, Scroll 900, VisibilityChange True]
        (fst (effect default_options initial_state
           (page 1024 768 0 2000 False ''Home'' marked_store)))) = []"
proof -
  have 1: "storeInUserSession default_options"
    by (simp add: default_options_def)
  have 2: "sessionStorage (page 1024 768 0 2000 False ''Home'' marked_store) =
      Storage \<lparr>items = [SESSION_STORAGE_CTA_KEY \<mapsto> ''true''], getItem_raises = False,
        setItem_raises = False\<rparr>"
    by (simp add: page_def marked_store_def)
  note m = marker_present [OF 1 2, of "''true''" initial_state
      "[MouseMove 100 10, Scroll 900, VisibilityChange True]"]
  have 3: "mousemove (page 1024 768 0 2000 False ''Home'' marked_store) = []"
    "scroll (page 1024 768 0 2000 False ''Home'' marked_store) = []"
    "onTrigger_calls (page 1024 768 0 2000 False ''Home'' marked_store) = 0"
    "visibilitychange (page 1024 768 0 2000 False ''Home'' marked_store) = []"
    by (simp_all add: page_def)
  have e: "effect default_options initial_state (page 1024 768 0 2000 False ''Home'' marked_store) =
      ((page 1024 768 0 2000 False ''Home'' marked_store)
         \<lparr>queue := queue (page 1024 768 0 2000 False ''Home'' marked_store) @
            [SetOriginalTitle (title (page 1024 768 0 2000 False ''Home'' marked_store))],
          visibilitychange := visibilitychange (page 1024 768 0 2000 False ''Home'' marked_store) @
            [\<lparr>cl_options = default_options, cl_state = initial_state\<rparr>]\<rparr>,
       Inr None)"
    using m by simp
  from m 3 show ?thesis
    unfolding e by simp
qed

section \<open>Failures of the session store\<close>

text \<open>
  C9, as the code has it. For every pointer or scroll event delivered to a handler: when
  the firing condition of the handler holds, the handler runs the trigger sequence, which
  calls \<^verbatim>\<open>onTrigger\<close> and asks for the in-memory flag before it writes the store, so both
  have happened also when the write fails; otherwise the handler does nothing. The
  sequence raises exactly when persistence is on and \<^verbatim>\<open>setItem\<close> (or the evaluation of
  \<^verbatim>\<open>sessionStorage\<close>) raises: a store that is absent (undefined or null) or switched off
  never makes it raise, and an exception of the store is not caught, it leaves the
  handler. The read at activation is the same: skipped for an absent store, and an
  exception it raises ends the effect run.
\<close>

theorem storage_failure:
  "handleMouseMove x y c w =
     (if triggerMouseMove (cl_options c) \<and> isDesktop (cl_options c) w \<and> y \<le> 50 \<and>
         (x \<le> 250 \<or> of_int (innerWidth w) - 250 \<le> x)
      then trigger (cl_options c) w else (w, None)) \<and>
   (triggerScroll (cl_options c) = Some ts \<longrightarrow>
      handleScroll c w =
        (if (if isMobile (cl_options c) w then scroll_mobile ts else scroll_desktop ts) \<and>
            js_ge (scrollPercent w) (num_or (percentThreshold ts) (Num 30))
         then trigger (cl_options c) w else (w, None))) \<and>
   onTrigger_calls (fst (trigger opts w)) = Suc (onTrigger_calls w) \<and>
   queue (fst (trigger opts w)) = queue w @ [SetHasTriggered True] \<and>
   snd (trigger opts w) =
     (if storeInUserSession opts \<and>
         (sessionStorage w = Denied \<or> (\<exists>st. sessionStorage w = Storage st \<and> setItem_raises st))
      then Some StorageError else None) \<and>
   (sessionStorage w = NoStorage \<or> \<not> storeInUserSession opts \<longrightarrow>
      snd (trigger opts w) = None \<and> snd (effect opts s w) \<noteq> Inl StorageError) \<and>
   (storeInUserSession opts \<and> \<not> hasTriggered s \<and>
    (sessionStorage w = Denied \<or> (\<exists>st. sessionStorage w = Storage st \<and> getItem_raises st)) \<longrightarrow>
      snd (effect opts s w) = Inl StorageError)"
proof -
  have m: "handleMouseMove x y c w =
     (if triggerMouseMove (cl_options c) \<and> isDesktop (cl_options c) w \<and> y \<le> 50 \<and>
         (x \<le> 250 \<or> of_int (innerWidth w) - 250 \<le> x)
      then trigger (cl_options c) w else (w, None))"
    by (auto simp: handleMouseMove_def Let_def)
  have sc: "triggerScroll (cl_options c) = Some ts \<longrightarrow>
      handleScroll c w =
        (if (if isMobile (cl_options c) w then scroll_mobile ts else scroll_desktop ts) \<and>
            js_ge (scrollPercent w) (num_or (percentThreshold ts) (Num 30))
         then trigger (cl_options c) w else (w, None))"
    by (auto simp: handleScroll_def Let_def)
  have t: "snd (trigger opts w) =
     (if storeInUserSession opts \<and>
         (sessionStorage w = Denied \<or> (\<exists>st. sessionStorage w = Storage st \<and> setItem_raises st))
      then Some StorageError else None)"
    by (cases "sessionStorage w") (auto simp: error_trigger setItem_def)
  have r1: "sessionStorage w = NoStorage \<or> \<not> storeInUserSession opts \<longrightarrow>
      snd (effect opts s w) \<noteq> Inl StorageError"
    by (auto simp: effect_def attach_def getItem_def set_state_def truthy_str_def Let_def
        split: option.splits)
  have r2: "storeInUserSession opts \<and> \<not> hasTriggered s \<and>
    (sessionStorage w = Denied \<or> (\<exists>st. sessionStorage w = Storage st \<and> getItem_raises st)) \<longrightarrow>
      snd (effect opts s w) = Inl StorageError"
    by (auto simp: effect_def getItem_def set_state_def Let_def)
  have t0: "sessionStorage w = NoStorage \<or> \<not> storeInUserSession opts \<longrightarrow>
      snd (trigger opts w) = None"
    unfolding t by auto
  from m sc t t0 r1 r2 calls_trigger [of opts w] queue_trigger [of opts w] show ?thesis
    by blast
qed

text \<open>
  Default options. A pointer move into the top left corner of a desktop page and a scroll
  to 35 percent of a mobile page both call \<^verbatim>\<open>onTrigger\<close> and ask for the flag when the
  store is denied, and raise; with no store they do the same and do not raise; a pointer
  move to the middle of the page does nothing.
\<close>

theorem storage_failure_witness:
  "onTrigger_calls (fst (handleMouseMove 100 10
      \<lparr>cl_options = default_options, cl_state = initial_state\<rparr>
      (page 1024 768 0 2000 False ''Home'' NoStorage))) = 1 \<and>
   snd (handleMouseMove 100 10
      \<lparr>cl_options = default_options, cl_state = initial_state\<rparr>
      (page 1024 768 0 2000 False ''Home'' NoStorage)) = None \<and>
   onTrigger_calls (fst (handleMouseMove 100 10
      \<lparr>cl_options = default_options, cl_state = initial_state\<rparr>
      (page 1024 768 0 2000 False ''Home'' Denied))) = 1 \<and>
   queue (fst (handleMouseMove 100 10
      \<lparr>cl_options = default_options, cl_state = initial_state\<rparr>
      (page 1024 768 0 2000 False ''Home'' Denied))) = [SetHasTriggered True] \<and>
   snd (handleMouseMove 100 10
      \<lparr>cl_options = default_options, cl_state = initial_state\<rparr>
      (page 1024 768 0 2000 False ''Home'' Denied)) = Some StorageError \<and>
   handleMouseMove 500 300
      \<lparr>cl_options = default_options, cl_state = initial_state\<rparr>
      (page 1024 768 0 2000 False ''Home'' Denied) =
     (page 1024 768 0 2000 False ''Home'' Denied, None) \<and>
   onTrigger_calls (fst (handleScroll
      \<lparr>cl_options = default_options, cl_state = initial_state\<rparr>
      (page 400 800 350 1800 False ''Home'' Denied))) = 1 \<and>
   queue (fst (handleScroll
      \<lparr>cl_options = default_options, cl_state = initial_state\<rparr>
      (page 400 800 350 1800 False ''Home'' Denied))) = [SetHasTriggered True] \<and>
   snd (handleScroll
      \<lparr>cl_options = default_options, cl_state = initial_state\<rparr>
      (page 400 800 350 1800 False ''Home'' Denied)) = Some StorageError \<and>
   snd (effect default_options initial_state (page 1024 768 0 2000 False ''Home'' Denied))
     = Inl StorageError"
proof -
  let ?c = "\<lparr>cl_options = default_options, cl_state = initial_state\<rparr>"
  let ?ts = "\<lparr>scroll_mobile = True, scroll_desktop = False, percentThreshold = Some (Num 30)\<rparr>"
  let ?n = "page 1024 768 0 2000 False ''Home'' NoStorage"
  let ?d = "page 1024 768 0 2000 False ''Home'' Denied"
  let ?m = "page 400 800 350 1800 False ''Home'' Denied"
  have o: "cl_options ?c = default_options" "storeInUserSession default_options"
    "triggerMouseMove default_options" "triggerScroll default_options = Some ?ts"
    "\<not> hasTriggered initial_state"
    by (simp_all add: default_options_def initial_state_def)
  have dk: "isDesktop default_options (page 1024 768 0 2000 False ''Home'' st)" for st
    by (simp add: isDesktop_def js_gt_def num_or_def default_options_def page_def)
  have mb: "isMobile default_options ?m"
    by (simp add: isMobile_def num_or_def default_options_def page_def)
  have sp: "scrollPercent ?m = Num 35"
    by code_simp
  have f: "innerWidth (page 1024 768 0 2000 False ''Home'' st) = 1024"
    "sessionStorage (page iw ih sy sh False ''Home'' st) = st"
    "onTrigger_calls (page iw ih sy sh False ''Home'' st) = 0"
    "queue (page iw ih sy sh False ''Home'' st) = []" for iw ih sy sh st
    by (simp_all add: page_def)
  have a: "handleMouseMove 100 10 ?c ?n = trigger default_options ?n"
    using storage_failure [of 100 10 ?c ?n ?ts default_options initial_state]
    by (simp add: o dk f)
  have b: "handleMouseMove 100 10 ?c ?d = trigger default_options ?d"
    using storage_failure [of 100 10 ?c ?d ?ts default_options initial_state]
    by (simp add: o dk f)
  have e: "handleMouseMove 500 300 ?c ?d = (?d, None)"
    using storage_failure [of 500 300 ?c ?d ?ts default_options initial_state]
    by (simp add: o dk f)
  have g: "handleScroll ?c ?m = trigger default_options ?m"
    using storage_failure [of 100 10 ?c ?m ?ts default_options initial_state]
    by (simp add: o mb sp js_ge_def num_or_def)
  note n = storage_failure [of 100 10 ?c ?n ?ts default_options initial_state]
  note d = storage_failure [of 100 10 ?c ?d ?ts default_options initial_state]
  note k = storage_failure [of 100 10 ?c ?m ?ts default_options initial_state]
  from n have n1: "onTrigger_calls (fst (trigger default_options ?n)) = 1"
    and n2: "snd (trigger default_options ?n) = None"
    by (simp_all add: f)
  from d have d1: "onTrigger_calls (fst (trigger default_options ?d)) = 1"
    and d2: "queue (fst (trigger default_options ?d)) = [SetHasTriggered True]"
    and d3: "snd (trigger default_options ?d) = Some StorageError"
    and d4: "snd (effect default_options initial_state ?d) = Inl StorageError"
    by (simp_all add: f o)
  from k have k1: "onTrigger_calls (fst (trigger default_options ?m)) = 1"
    and k2: "queue (fst (trigger default_options ?m)) = [SetHasTriggered True]"
    and k3: "snd (trigger default_options ?m) = Some StorageError"
    by (simp_all add: f o)
  show ?thesis
    unfolding a b e g using n1 n2 d1 d2 d3 d4 k1 k2 k3 by simp
qed

text \<open>
  C9 as the specification states it fails when the store is full: with the default
  options, a pointer move into the top left corner of a desktop viewport raises out of
  the handler.
\<close>

theorem setItem_raises_counterexample:
  "snd (handleMouseMove 100 10 \<lparr>cl_options = default_options, cl_state = initial_state\<rparr>
     (page 1024 768 0 2000 False ''Home''
        (Storage \<lparr>items = Map.empty, getItem_raises = False, setItem_raises = True\<rparr>)))
   = Some StorageError"
  by (simp add: handleMouseMove_def isDesktop_def js_gt_def num_or_def default_options_def
        page_def Let_def trigger_def set_state_def setItem_def)

section \<open>A partial options object\<close>

text \<open>
  C10, as the code has it. The default value of the options parameter stands only when
  no options object is passed; an object that is passed is used as it is. Its object
  fields \<^verbatim>\<open>triggerScroll\<close> and \<^verbatim>\<open>triggerTabChange\<close> are read with no fallback, while the
  scalar fields \<^verbatim>\<open>mobileWidthThreshold\<close>, \<^verbatim>\<open>percentThreshold\<close>, \<^verbatim>\<open>delay\<close> and \<^verbatim>\<open>title\<close> fall
  back to their defaults one by one (\<^verbatim>\<open>||\<close>). So for every options object without
  \<^verbatim>\<open>triggerScroll\<close>, an effect run raises a TypeError exactly when it gets past the gate
  of line 79 (the hook has not triggered and the store, if persistence is on, is read
  and holds no marker), the first effect run of such a mount unmounts the component, and
  the scroll handler raises. An options object that has \<^verbatim>\<open>triggerScroll\<close> never makes
  the effect run raise a TypeError, with or without \<^verbatim>\<open>triggerTabChange\<close>; without it
  the visibility handler raises a TypeError at every event.
\<close>

theorem partial_options:
  "options_param None = default_options \<and>
   options_param (Some opts) = opts \<and>
   (triggerScroll opts = None \<longrightarrow>
      (snd (effect (options_param (Some opts)) s w) = Inl TypeError) =
      (\<not> hasTriggered s \<and>
       (storeInUserSession opts \<longrightarrow>
          (\<exists>v. getItem (sessionStorage w) SESSION_STORAGE_CTA_KEY = Inr v \<and> \<not> truthy_str v)))) \<and>
   (triggerScroll opts \<noteq> None \<longrightarrow>
      snd (effect (options_param (Some opts)) s w) \<noteq> Inl TypeError) \<and>
   (triggerScroll opts = None \<and>
    (storeInUserSession opts \<longrightarrow>
       (\<exists>v. getItem (sessionStorage w) SESSION_STORAGE_CTA_KEY = Inr v \<and> \<not> truthy_str v)) \<longrightarrow>
      \<not> mounted (mount (Some opts) w) \<and> uncaught (mount (Some opts) w) = uncaught w @ [TypeError]) \<and>
   (triggerScroll opts = None \<longrightarrow>
      snd (handleScroll \<lparr>cl_options = options_param (Some opts), cl_state = s\<rparr> w)
        = Some TypeError) \<and>
   (triggerTabChange opts = None \<longrightarrow>
      snd (handleVisibilityChange \<lparr>cl_options = options_param (Some opts), cl_state = s\<rparr> w)
        = Some TypeError) \<and>
   (mobileWidthThreshold opts = None \<longrightarrow>
      isDesktop (options_param (Some opts)) w = (768 < innerWidth w)) \<and>
   (triggerScroll opts = Some ts \<and> percentThreshold ts = None \<longrightarrow>
      num_or (percentThreshold ts) (Num 30) = Num 30) \<and>
   (triggerTabChange opts = Some cfg \<and> tab_delay cfg = None \<and> tab_title cfg = None \<and>
    (if isDesktop opts w then tab_desktop cfg else tab_mobile cfg) \<and> hidden w \<longrightarrow>
      timers (fst (handleVisibilityChange \<lparr>cl_options = options_param (Some opts), cl_state = s\<rparr> w))
        = timers w @
          [\<lparr>timer_id = Suc (lastTimer w), timer_delay = Num 200, timer_title = ''We miss you!''\<rparr>])"
proof -
  have g: "getItem (sessionStorage w) SESSION_STORAGE_CTA_KEY \<noteq> Inl TypeError"
    by (auto simp: getItem_def split: storage.splits)
  have e1: "triggerScroll opts = None \<longrightarrow>
      (snd (effect opts s w) = Inl TypeError) =
      (\<not> hasTriggered s \<and>
       (storeInUserSession opts \<longrightarrow>
          (\<exists>v. getItem (sessionStorage w) SESSION_STORAGE_CTA_KEY = Inr v \<and> \<not> truthy_str v)))"
    using g by (auto simp: effect_def attach_def set_state_def Let_def split: sum.splits)
  have e2: "triggerScroll opts \<noteq> None \<longrightarrow> snd (effect opts s w) \<noteq> Inl TypeError"
    by (auto simp: effect_def attach_def set_state_def getItem_def Let_def
        split: sum.splits storage.splits if_splits)
  have m: "triggerScroll opts = None \<and>
    (storeInUserSession opts \<longrightarrow>
       (\<exists>v. getItem (sessionStorage w) SESSION_STORAGE_CTA_KEY = Inr v \<and> \<not> truthy_str v)) \<longrightarrow>
      \<not> mounted (mount (Some opts) w) \<and> uncaught (mount (Some opts) w) = uncaught w @ [TypeError]"
    by (auto simp: options_param_def effect_def attach_def set_state_def mount_def
        run_effect_def initial_state_def Let_def)
  have h: "triggerScroll opts = None \<longrightarrow>
      snd (handleScroll \<lparr>cl_options = opts, cl_state = s\<rparr> w) = Some TypeError"
    "triggerTabChange opts = None \<longrightarrow>
      snd (handleVisibilityChange \<lparr>cl_options = opts, cl_state = s\<rparr> w) = Some TypeError"
    by (auto simp: handleScroll_def handleVisibilityChange_def Let_def)
  have d: "mobileWidthThreshold opts = None \<longrightarrow> isDesktop opts w = (768 < innerWidth w)"
    "triggerScroll opts = Some ts \<and> percentThreshold ts = None \<longrightarrow>
      num_or (percentThreshold ts) (Num 30) = Num 30"
    by (auto simp: isDesktop_def js_gt_def num_or_def)
  have t: "triggerTabChange opts = Some cfg \<and> tab_delay cfg = None \<and> tab_title cfg = None \<and>
    (if isDesktop opts w then tab_desktop cfg else tab_mobile cfg) \<and> hidden w \<longrightarrow>
      timers (fst (handleVisibilityChange \<lparr>cl_options = opts, cl_state = s\<rparr> w))
        = timers w @
          [\<lparr>timer_id = Suc (lastTimer w), timer_delay = Num 200, timer_title = ''We miss you!''\<rparr>]"
    by (auto simp: handleVisibilityChange_def setTimeout_def set_state_def num_or_def str_or_def
        Let_def split: if_splits)
  have p: "options_param None = default_options" "options_param (Some opts) = opts"
    by (simp_all add: options_param_def)
  from e1 e2 m h d t show ?thesis
    unfolding p by blast
qed

text \<open>
  The options object \<^verbatim>\<open>{ triggerMouseMove: true }\<close> on a fresh desktop page: the effect
  raises and the mount unmounts the component; the handlers raise; the width is still
  compared with 768. With \<^verbatim>\<open>triggerTabChange: { desktop: true }\<close> added, a hide event
  schedules the timer with the default delay and title.
\<close>

theorem partial_options_witness:
  "snd (effect
     (options_param (Some \<lparr>mobileWidthThreshold = None, triggerScroll = None,
        triggerMouseMove = True, triggerTabChange = None, storeInUserSession = False\<rparr>))
     initial_state (page 1024 768 0 2000 False ''Home'' empty_store)) = Inl TypeError \<and>
   snd (handleVisibilityChange
     \<lparr>cl_options = options_param (Some \<lparr>mobileWidthThreshold = None, triggerScroll = None,
        triggerMouseMove = True, triggerTabChange = None, storeInUserSession = False\<rparr>),
      cl_state = initial_state\<rparr>
     (page 1024 768 0 2000 False ''Home'' empty_store)) = Some TypeError \<and>
   mounted (mount (Some \<lparr>mobileWidthThreshold = None, triggerScroll = None,
        triggerMouseMove = True, triggerTabChange = None, storeInUserSession = False\<rparr>)
     (page 1024 768 0 2000 False ''Home'' empty_store)) = False \<and>
   isDesktop (options_param (Some \<lparr>mobileWidthThreshold = None, triggerScroll = None,
        triggerMouseMove = True, triggerTabChange = None, storeInUserSession = False\<rparr>))
     (page 1024 768 0 2000 False ''Home'' empty_store) \<and>
   timers (fst (handleVisibilityChange
     \<lparr>cl_options = options_param (Some \<lparr>mobileWidthThreshold = None, triggerScroll = None,
        triggerMouseMove = True,
        triggerTabChange =
          Some \<lparr>tab_mobile = False, tab_desktop = True, tab_delay = None, tab_title = None\<rparr>,
        storeInUserSession = False\<rparr>),
      cl_state = initial_state\<rparr>
     (page 1024 768 0 2000 True ''Home'' empty_store)))
     = [\<lparr>timer_id = 1, timer_delay = Num 200, timer_title = ''We miss you!''\<rparr>]"
proof -
  let ?o = "\<lparr>mobileWidthThreshold = None, triggerScroll = None,
        triggerMouseMove = True, triggerTabChange = None, storeInUserSession = False\<rparr>"
  let ?cfg = "\<lparr>tab_mobile = False, tab_desktop = True, tab_delay = None, tab_title = None\<rparr>"
  let ?ts = "\<lparr>scroll_mobile = True, scroll_desktop = False, percentThreshold = None\<rparr>"
  let ?t = "\<lparr>mobileWidthThreshold = None, triggerScroll = None,
        triggerMouseMove = True, triggerTabChange = Some ?cfg, storeInUserSession = False\<rparr>"
  let ?w = "page 1024 768 0 2000 False ''Home'' empty_store"
  let ?h = "page 1024 768 0 2000 True ''Home'' empty_store"
  note p = partial_options [of ?o initial_state ?w ?ts ?cfg]
  note q = partial_options [of ?t initial_state ?h ?ts ?cfg]
  have o: "triggerScroll ?o = None" "triggerTabChange ?o = None" "mobileWidthThreshold ?o = None"
    "\<not> storeInUserSession ?o" "\<not> hasTriggered initial_state" "innerWidth ?w = 1024"
    by (simp_all add: initial_state_def page_def)
  have t: "triggerTabChange ?t = Some ?cfg" "tab_delay ?cfg = None" "tab_title ?cfg = None"
    "hidden ?h" "timers ?h = []" "lastTimer ?h = 0"
    "if isDesktop ?t ?h then tab_desktop ?cfg else tab_mobile ?cfg"
    by (simp_all add: page_def isDesktop_def js_gt_def num_or_def)
  from p o have 1: "snd (effect (options_param (Some ?o)) initial_state ?w) = Inl TypeError"
    by blast
  from p o have 2: "snd (handleVisibilityChange
      \<lparr>cl_options = options_param (Some ?o), cl_state = initial_state\<rparr> ?w) = Some TypeError"
    by blast
  from p o have 3: "\<not> mounted (mount (Some ?o) ?w)"
    by blast
  from p o have "isDesktop (options_param (Some ?o)) ?w = (768 < innerWidth ?w)"
    by blast
  with o have 4: "isDesktop (options_param (Some ?o)) ?w"
    by simp
  from q t have "timers (fst (handleVisibilityChange
      \<lparr>cl_options = options_param (Some ?t), cl_state = initial_state\<rparr> ?h))
    = timers ?h @
      [\<lparr>timer_id = Suc (lastTimer ?h), timer_delay = Num 200, timer_title = ''We miss you!''\<rparr>]"
    by blast
  with t have 5: "timers (fst (handleVisibilityChange
      \<lparr>cl_options = options_param (Some ?t), cl_state = initial_state\<rparr> ?h))
    = [\<lparr>timer_id = 1, timer_delay = Num 200, timer_title = ''We miss you!''\<rparr>]"
    by simp
  from 1 2 3 4 5 show ?thesis by simp
qed

text \<open>
  C10 as the specification states it fails in three places. An options object without
  \<^verbatim>\<open>triggerTabChange\<close> that has \<^verbatim>\<open>triggerScroll\<close> is activated without an exception (the
  effect returns its cleanup, the component stays mounted). An options object without
  \<^verbatim>\<open>triggerScroll\<close> is activated without an exception when the session marker is
  present. And a per-field default does apply to an options object that is passed: one
  without \<^verbatim>\<open>mobileWidthThreshold\<close> classifies a width of 800 as Desktop and a width of
  768 as Mobile, the default threshold.
\<close>

theorem partial_options_counterexample:
  "snd (effect (default_options\<lparr>triggerTabChange := None\<rparr>) initial_state
      (page 1024 768 0 2000 False ''Home'' empty_store))
     = Inr (Some \<lparr>cl_options = default_options\<lparr>triggerTabChange := None\<rparr>,
                  cl_state = initial_state\<rparr>) \<and>
   mounted (mount (Some (default_options\<lparr>triggerTabChange := None\<rparr>))
      (page 1024 768 0 2000 False ''Home'' empty_store)) \<and>
   snd (effect (default_options\<lparr>triggerScroll := None\<rparr>) initial_state
      (page 1024 768 0 2000 False ''Home'' marked_store)) = Inr None \<and>
   mounted (mount (Some (default_options\<lparr>triggerScroll := None\<rparr>))
      (page 1024 768 0 2000 False ''Home'' marked_store)) \<and>
   isDesktop (default_options\<lparr>mobileWidthThreshold := None\<rparr>)
      (page 800 768 0 2000 False ''Home'' empty_store) \<and>
   isMobile (default_options\<lparr>mobileWidthThreshold := None\<rparr>)
      (page 768 768 0 2000 False ''Home'' empty_store)"
  by code_simp

section \<open>One trigger per lifetime\<close>

subsection \<open>Frames\<close>

lemma teardown_frame:
  "title (teardown w) = title w \<and> state (teardown w) = state w \<and> queue (teardown w) = queue w \<and>
   props (teardown w) = props w \<and> mounted (teardown w) = mounted w \<and>
   onTrigger_calls (teardown w) = onTrigger_calls w \<and> cleanup (teardown w) = None \<and>
   sessionStorage (teardown w) = sessionStorage w"
  by (simp add: teardown_def run_cleanup_def Let_def split: option.splits)

lemma teardown_detectors:
  "detectors_ok w \<Longrightarrow> mousemove (teardown w) = [] \<and> scroll (teardown w) = []"
  by (auto simp: detectors_ok_def teardown_def run_cleanup_def Let_def split: option.splits)

lemma effect_frame:
  "effect opts s w = (w1, r) \<Longrightarrow>
   title w1 = title w \<and> state w1 = state w \<and> queue w1 = queue w @ [SetOriginalTitle (title w)] \<and>
   props w1 = props w \<and> mounted w1 = mounted w \<and> onTrigger_calls w1 = onTrigger_calls w \<and>
   uncaught w1 = uncaught w"
  by (auto simp: effect_def attach_def set_state_def Let_def
      split: if_splits sum.splits option.splits)

lemma run_effect_frame:
  "title (run_effect w) = title w \<and> state (run_effect w) = state w \<and>
   queue (run_effect w) = queue w @ [SetOriginalTitle (title w)] \<and>
   props (run_effect w) = props w \<and> onTrigger_calls (run_effect w) = onTrigger_calls w"
proof -
  obtain w1 r where e: "effect (options_param (props w)) (state w) w = (w1, r)"
    by (cases "effect (options_param (props w)) (state w) w")
  from effect_frame [OF e] show ?thesis
    by (cases r) (simp_all add: run_effect_def e)
qed

subsection \<open>Renders reach a stable state\<close>

lemma commit_queue:
  "queue (commit w) = [] \<or> queue (commit w) = [SetOriginalTitle (title (commit w))]"
  by (simp add: commit_def Let_def run_effect_frame teardown_frame)

lemma commit_title: "title (commit w) = title w"
  by (simp add: commit_def Let_def run_effect_frame teardown_frame)

lemma commit_queue2:
  assumes "queue w = [] \<or> queue w = [SetOriginalTitle (title w)]"
  shows "queue (commit w) = [] \<or>
         (queue (commit w) = [SetOriginalTitle (title (commit w))] \<and>
          originalTitle (state (commit w)) = title (commit w))"
  using assms
  by (auto simp: commit_def Let_def run_effect_frame teardown_frame)

lemma commit_queue3:
  assumes "queue w = [] \<or>
           (queue w = [SetOriginalTitle (title w)] \<and> originalTitle (state w) = title w)"
  shows "queue (commit w) = []"
  using assms
  by (auto simp: commit_def Let_def)

lemma queue_flush: "queue (flush w) = []"
  unfolding flush_def
  by (rule commit_queue3, rule commit_queue2, rule commit_queue)

subsection \<open>The detectors across renders\<close>

lemma effect_detectors:
  assumes "effect opts s w = (w1, r)" and "mousemove w = []" and "scroll w = []"
    and "triggerScroll opts \<noteq> None"
  shows "case r of
           Inl e \<Rightarrow> mousemove w1 = [] \<and> scroll w1 = []
         | Inr None \<Rightarrow> mousemove w1 = [] \<and> scroll w1 = []
         | Inr (Some c) \<Rightarrow>
             \<not> hasTriggered s \<and>
             mousemove w1 = (if triggerMouseMove (cl_options c) then [c] else []) \<and>
             scroll w1 =
               (case triggerScroll (cl_options c) of
                  None \<Rightarrow> []
                | Some ts \<Rightarrow> if scroll_mobile ts \<or> scroll_desktop ts then [c] else [])"
  using assms
  by (auto simp: effect_def attach_def set_state_def Let_def
      split: if_splits sum.splits option.splits)

lemma run_effect_detectors:
  assumes "mousemove w = []" and "scroll w = []" and "has_triggerScroll (props w)"
    and "mounted w"
  shows "detectors_ok (run_effect w)"
proof -
  obtain w1 r where e: "effect (options_param (props w)) (state w) w = (w1, r)"
    by (cases "effect (options_param (props w)) (state w) w")
  from assms have "triggerScroll (options_param (props w)) \<noteq> None"
    by (simp add: has_triggerScroll_def)
  from effect_detectors [OF e assms(1,2) this] effect_frame [OF e] assms(4) show ?thesis
    by (cases r) (auto simp: run_effect_def e detectors_ok_def split: option.splits)
qed

text \<open>What one render keeps of a hook whose detectors are in order.\<close>

lemma hasTriggered_foldl:
  "no_reset q \<Longrightarrow>
   hasTriggered (foldl apply_update s q) = (hasTriggered s \<or> SetHasTriggered True \<in> set q)"
proof (induction q arbitrary: s)
  case Nil
  show ?case by simp
next
  case (Cons u q)
  then show ?case
    by (cases u) (auto simp: no_reset_def)
qed

lemma settled_gate_ok: "settled w \<Longrightarrow> gate_ok w"
  by (auto simp: settled_def gate_ok_def no_reset_def)

lemma detectors_ok_queue: "detectors_ok (w\<lparr>queue := q\<rparr>) = detectors_ok w"
  by (simp add: detectors_ok_def split: option.splits)

lemma rerun_settled:
  assumes d: "detectors_ok w" and m: "mounted w" and p: "has_triggerScroll p"
    and c: "onTrigger_calls w \<le> 1" and h: "onTrigger_calls w = 1 \<longrightarrow> hasTriggered s"
  shows "settled (run_effect ((teardown w)\<lparr>props := p, state := s, queue := []\<rparr>))"
proof -
  let ?v = "(teardown w)\<lparr>props := p, state := s, queue := []\<rparr>"
  have 1: "mousemove ?v = []" "scroll ?v = []"
    using teardown_detectors [OF d] by simp_all
  have 2: "has_triggerScroll (props ?v)" "mounted ?v"
    using p m teardown_frame [of w] by simp_all
  have 3: "detectors_ok (run_effect ?v)"
    by (rule run_effect_detectors [OF 1 2])
  from run_effect_frame [of ?v] teardown_frame [of w] 3 p c h show ?thesis
    by (simp add: settled_def)
qed

lemma commit_settled:
  assumes "gate_ok w"
  shows "settled (commit w)"
proof (cases "mounted w \<and> foldl apply_update (state w) (queue w) \<noteq> state w")
  case True
  let ?s = "foldl apply_update (state w) (queue w)"
  from assms have g: "has_triggerScroll (props w)" "detectors_ok w" "no_reset (queue w)"
    "onTrigger_calls w \<le> 1"
    "onTrigger_calls w = 1 \<longrightarrow>
       \<not> mounted w \<or> hasTriggered (state w) \<or> SetHasTriggered True \<in> set (queue w)"
    by (simp_all add: gate_ok_def)
  from g(3,5) True have h: "onTrigger_calls w = 1 \<longrightarrow> hasTriggered ?s"
    by (simp add: hasTriggered_foldl)
  have "has_triggerScroll (props (teardown w))"
    using g(1) teardown_frame [of w] by simp
  have "settled (run_effect ((teardown w)\<lparr>props := props w, state := ?s, queue := []\<rparr>))"
    using True g(1,2,4) h by (intro rerun_settled) simp_all
  moreover have "(teardown w)\<lparr>props := props w\<rparr> = teardown w"
    using teardown_frame [of w] by simp
  ultimately show ?thesis
    using True by (simp add: commit_def Let_def)
next
  case False
  then have e: "commit w = w\<lparr>queue := []\<rparr>"
    by (auto simp: commit_def Let_def)
  from assms False have "onTrigger_calls w = 1 \<longrightarrow> \<not> mounted w \<or> hasTriggered (state w)"
    using hasTriggered_foldl [of "queue w" "state w"]
    by (auto simp: gate_ok_def)
  with assms show ?thesis
    by (simp add: e settled_def gate_ok_def detectors_ok_queue)
qed

lemma flush_settled:
  assumes "gate_ok w"
  shows "settled (flush w) \<and> queue (flush w) = []"
proof -
  have "settled (commit w)"
    by (rule commit_settled [OF assms])
  then have "gate_ok (commit w)"
    by (rule settled_gate_ok)
  then have "settled (commit (commit w))"
    by (rule commit_settled)
  then have "gate_ok (commit (commit w))"
    by (rule settled_gate_ok)
  then have "settled (commit (commit (commit w)))"
    by (rule commit_settled)
  then show ?thesis
    by (simp add: flush_def queue_flush [unfolded flush_def])
qed

subsection \<open>The detectors across events\<close>

lemma same_hook_refl [simp]: "same_hook w w"
  by (simp add: same_hook_def)

lemma same_hook_trans: "same_hook u v \<Longrightarrow> same_hook v w \<Longrightarrow> same_hook u w"
  unfolding same_hook_def by (elim conjE) (intro conjI; (erule trans, assumption))

lemma same_hook_detectors:
  assumes "same_hook v w"
  shows "detectors_ok v = detectors_ok w"
proof -
  from assms have "cleanup v = cleanup w" "mounted v = mounted w" "state v = state w"
    "mousemove v = mousemove w" "scroll v = scroll w"
    unfolding same_hook_def by blast+
  then show ?thesis
    by (simp only: detectors_ok_def)
qed

lemma same_hook_uncaught [simp]: "same_hook (v\<lparr>uncaught := u\<rparr>) w = same_hook v w"
  by (simp add: same_hook_def)

lemma trigger_frame:
  "trigger opts w = (w1, e) \<Longrightarrow>
   same_hook w1 w \<and> onTrigger_calls w1 = Suc (onTrigger_calls w) \<and>
   queue w1 = queue w @ [SetHasTriggered True]"
  by (auto simp: trigger_def set_state_def same_hook_def Let_def split: if_splits prod.splits)

lemma handleVisibilityChange_hook:
  "handleVisibilityChange c w = (w1, e) \<Longrightarrow>
   same_hook w1 w \<and> onTrigger_calls w1 = onTrigger_calls w \<and>
   (no_reset (queue w) \<longrightarrow> no_reset (queue w1)) \<and> set (queue w) \<subseteq> set (queue w1)"
  by (auto simp: handleVisibilityChange_def setTimeout_def clearTimeout_def set_state_def
      same_hook_def no_reset_def Let_def split: option.splits if_splits)

lemma dispatch_visibility_hook:
  "same_hook (dispatch handleVisibilityChange cs w) w \<and>
   onTrigger_calls (dispatch handleVisibilityChange cs w) = onTrigger_calls w \<and>
   (no_reset (queue w) \<longrightarrow> no_reset (queue (dispatch handleVisibilityChange cs w))) \<and>
   set (queue w) \<subseteq> set (queue (dispatch handleVisibilityChange cs w))"
proof (induction cs arbitrary: w)
  case Nil
  show ?case by simp
next
  case (Cons c cs)
  obtain w1 e where h: "handleVisibilityChange c w = (w1, e)"
    by (cases "handleVisibilityChange c w")
  let ?v = "case e of None \<Rightarrow> w1 | Some x \<Rightarrow> w1\<lparr>uncaught := uncaught w1 @ [x]\<rparr>"
  have d: "dispatch handleVisibilityChange (c # cs) w = dispatch handleVisibilityChange cs ?v"
    by (cases e) (simp_all add: h)
  have v: "same_hook ?v w \<and> onTrigger_calls ?v = onTrigger_calls w \<and>
      (no_reset (queue w) \<longrightarrow> no_reset (queue ?v)) \<and> set (queue w) \<subseteq> set (queue ?v)"
    using handleVisibilityChange_hook [OF h] by (cases e) simp_all
  from Cons.IH [of ?v] v show ?case
    unfolding d by (auto intro: same_hook_trans)
qed

lemma gate_ok_same:
  assumes "gate_ok w" and "same_hook v w" and "onTrigger_calls v = onTrigger_calls w"
    and "no_reset (queue v)" and "set (queue w) \<subseteq> set (queue v)"
  shows "gate_ok v"
  using assms same_hook_detectors [OF assms(2)]
  by (auto simp: gate_ok_def same_hook_def)

lemma gate_ok_triggered:
  assumes "gate_ok w" and "onTrigger_calls w = 0" and "trigger opts w = (w1, e)"
  shows "gate_ok (case e of None \<Rightarrow> w1 | Some x \<Rightarrow> w1\<lparr>uncaught := uncaught w1 @ [x]\<rparr>)"
proof -
  let ?v = "case e of None \<Rightarrow> w1 | Some x \<Rightarrow> w1\<lparr>uncaught := uncaught w1 @ [x]\<rparr>"
  from trigger_frame [OF assms(3)] have
    "same_hook ?v w" "onTrigger_calls ?v = Suc (onTrigger_calls w)"
    "queue ?v = queue w @ [SetHasTriggered True]"
    by (cases e; simp)+
  with assms(1,2) same_hook_detectors [of ?v w] show ?thesis
    by (auto simp: gate_ok_def same_hook_def no_reset_def)
qed

text \<open>A hook with a pending cleanup has not called \<^verbatim>\<open>onTrigger\<close> yet.\<close>

lemma settled_pending:
  "settled w \<Longrightarrow> cleanup w = Some c \<Longrightarrow> onTrigger_calls w = 0"
  by (auto simp: settled_def detectors_ok_def)

lemma step_mousemove:
  assumes "settled w"
  shows "gate_ok (step (MouseMove x y) w)"
proof (cases "mousemove w")
  case Nil
  with assms show ?thesis by (simp add: settled_gate_ok)
next
  case (Cons c cs)
  with assms obtain k where k: "cleanup w = Some k" and l: "mousemove w = [k]"
    by (auto simp: settled_def detectors_ok_def split: option.splits if_splits)
  from settled_pending [OF assms k] have z: "onTrigger_calls w = 0" .
  from handleMouseMove_cases [of x y k w] show ?thesis
  proof
    assume "handleMouseMove x y k w = (w, None)"
    with l assms show ?thesis by (simp add: settled_gate_ok)
  next
    assume t: "handleMouseMove x y k w = trigger (cl_options k) w"
    obtain w1 e where e: "trigger (cl_options k) w = (w1, e)"
      by (cases "trigger (cl_options k) w")
    from gate_ok_triggered [OF settled_gate_ok [OF assms] z e] show ?thesis
      by (cases e) (simp_all add: l t e)
  qed
qed

lemma settled_scrollY: "settled (w\<lparr>scrollY := y\<rparr>) = settled w"
  by (simp add: settled_def detectors_ok_def split: option.splits)

lemma step_scroll:
  assumes "settled w"
  shows "gate_ok (step (Scroll y) w)"
proof (cases "scroll w")
  case Nil
  with assms show ?thesis by (simp add: settled_gate_ok settled_scrollY)
next
  case (Cons c cs)
  let ?w = "w\<lparr>scrollY := y\<rparr>"
  have s: "settled ?w" using assms by (simp add: settled_scrollY)
  from Cons assms obtain k where k: "cleanup w = Some k" and l: "scroll w = [k]"
    and ts: "triggerScroll (cl_options k) \<noteq> None"
    by (auto simp: settled_def detectors_ok_def split: option.splits if_splits)
  from settled_pending [OF s] k have z: "onTrigger_calls ?w = 0" by simp
  from handleScroll_cases [OF ts, of ?w] show ?thesis
  proof
    assume "handleScroll k ?w = (?w, None)"
    with l s show ?thesis by (simp add: settled_gate_ok)
  next
    assume t: "handleScroll k ?w = trigger (cl_options k) ?w"
    obtain w1 e where e: "trigger (cl_options k) ?w = (w1, e)"
      by (cases "trigger (cl_options k) ?w")
    from gate_ok_triggered [OF settled_gate_ok [OF s] z e] show ?thesis
      by (cases e) (simp_all add: l t e)
  qed
qed

lemma step_visibility:
  assumes "settled w"
  shows "gate_ok (step (VisibilityChange h) w)"
proof -
  let ?w = "w\<lparr>hidden := h\<rparr>"
  let ?d = "dispatch handleVisibilityChange (visibilitychange w) ?w"
  have "settled ?w"
    using assms by (simp add: settled_def detectors_ok_def split: option.splits)
  then have g: "gate_ok ?w"
    by (rule settled_gate_ok)
  note d = dispatch_visibility_hook [of "visibilitychange w" ?w]
  from d have a: "same_hook ?d ?w" by (rule conjunct1)
  from d have b: "onTrigger_calls ?d = onTrigger_calls ?w" by (elim conjE)
  from d have c: "no_reset (queue ?w) \<longrightarrow> no_reset (queue ?d)" by (elim conjE)
  from d have e: "set (queue ?w) \<subseteq> set (queue ?d)" by (elim conjE)
  from g have "no_reset (queue ?w)" by (simp add: gate_ok_def)
  with c have "no_reset (queue ?d)" by (rule mp)
  from gate_ok_same [OF g a b this e] show ?thesis by simp
qed

lemma step_rerender:
  assumes "settled w" and "has_triggerScroll p"
  shows "gate_ok (step (Rerender p) w)"
proof (cases "mounted w")
  case False
  with assms show ?thesis by (simp add: rerender_def settled_gate_ok)
next
  case True
  let ?s = "foldl apply_update (state w) (queue w)"
  from assms(1) have q: "hasTriggered ?s = hasTriggered (state w)"
    by (auto simp: settled_def)
  from assms(1) True have "onTrigger_calls w = 1 \<longrightarrow> hasTriggered ?s"
    unfolding q by (simp add: settled_def)
  with assms True
  have "settled (run_effect ((teardown w)\<lparr>props := p, state := ?s, queue := []\<rparr>))"
    by (intro rerun_settled) (simp_all add: settled_def)
  with True show ?thesis
    by (simp add: rerender_def settled_gate_ok)
qed

lemma step_unmount:
  assumes "settled w"
  shows "gate_ok (step Unmount w)"
proof (cases "mounted w")
  case False
  with assms show ?thesis by (simp add: unmount_def settled_gate_ok)
next
  case True
  from assms have d: "detectors_ok w" by (simp add: settled_def)
  from teardown_detectors [OF d] teardown_frame [of w] assms True show ?thesis
    by (simp add: unmount_def gate_ok_def settled_def detectors_ok_def no_reset_def)
qed

lemma step_gate_ok:
  assumes "settled w" and "event_ok e"
  shows "gate_ok (step e w)"
proof (cases e)
  case (MouseMove x y)
  with assms show ?thesis by (simp only: step_mousemove)
next
  case (Scroll y)
  with assms show ?thesis by (simp only: step_scroll)
next
  case (VisibilityChange h)
  with assms show ?thesis by (simp only: step_visibility)
next
  case (TimerFires i)
  with assms show ?thesis
    by (auto simp: fire_timer_def settled_def gate_ok_def detectors_ok_def no_reset_def
        split: option.splits)
next
  case (Resize n)
  with assms show ?thesis
    by (auto simp: settled_def gate_ok_def detectors_ok_def no_reset_def split: option.splits)
next
  case (Layout sh ih)
  with assms show ?thesis
    by (auto simp: settled_def gate_ok_def detectors_ok_def no_reset_def split: option.splits)
next
  case (SetTitle t)
  with assms show ?thesis
    by (auto simp: settled_def gate_ok_def detectors_ok_def no_reset_def split: option.splits)
next
  case Render
  with assms show ?thesis
    using flush_settled [OF settled_gate_ok [OF assms(1)]] by (simp add: settled_gate_ok)
next
  case (Rerender p)
  with assms show ?thesis by (simp only: step_rerender event_ok.simps)
next
  case Unmount
  with assms show ?thesis by (simp only: step_unmount)
qed

lemma mount_gate_ok:
  assumes "has_triggerScroll p" and "mousemove w = []" and "scroll w = []"
    and "onTrigger_calls w = 0"
  shows "gate_ok (mount p w)"
proof -
  let ?v = "w\<lparr>mounted := True, props := p, state := initial_state, cleanup := None, queue := []\<rparr>"
  have "detectors_ok (run_effect ?v)"
    using assms by (intro run_effect_detectors) simp_all
  with run_effect_frame [of ?v] assms show ?thesis
    by (simp add: mount_def gate_ok_def no_reset_def)
qed

lemma run_sync_settled:
  assumes "settled w" and "list_all event_ok es"
  shows "settled (foldl (\<lambda>v e. flush (step e v)) w es)"
  using assms
proof (induction es arbitrary: w)
  case Nil
  then show ?case by simp
next
  case (Cons e es)
  from Cons.prems have "gate_ok (step e w)" by (simp add: step_gate_ok)
  then have "settled (flush (step e w))" by (simp add: flush_settled)
  with Cons.IH [of "flush (step e w)"] Cons.prems show ?case by simp
qed

text \<open>
  What the gate of line 79 does achieve. The handlers do not consult \<^verbatim>\<open>hasTriggered\<close>;
  the flag and the session marker are read when the effect runs, and a run that finds
  the gate satisfied attaches no detector. So in a run in which React renders the hook
  after each event, before the next one is delivered, \<^verbatim>\<open>onTrigger\<close> is called at most
  once, the options of the mount and of every re-render holding \<^verbatim>\<open>triggerScroll\<close>.
\<close>

theorem at_most_once_sync:
  assumes "has_triggerScroll p" and "list_all event_ok es"
    and "mousemove w = []" and "scroll w = []" and "onTrigger_calls w = 0"
  shows "onTrigger_calls (run_sync es (mount p w)) \<le> 1"
proof -
  have "gate_ok (mount p w)" by (rule mount_gate_ok [OF assms(1,3,4,5)])
  then have "settled (flush (mount p w))" by (simp add: flush_settled)
  from run_sync_settled [OF this assms(2)] show ?thesis
    by (simp add: run_sync_def settled_def)
qed

theorem at_most_once_sync_witness:
  "onTrigger_calls
     (run_sync [MouseMove 100 10, MouseMove 100 10, Scroll 900, Rerender None, MouseMove 900 10]
        (mount None (page 1024 768 0 2000 False ''Home'' empty_store))) \<le> 1"
  using at_most_once_sync [of None
      "[MouseMove 100 10, MouseMove 100 10, Scroll 900, Rerender None, MouseMove 900 10]"
      "page 1024 768 0 2000 False ''Home'' empty_store"]
  by (simp add: has_triggerScroll_def options_param_def default_options_def page_def)

section \<open>The title flasher\<close>

lemma run_timers_none: "timers w = [] \<Longrightarrow> run (map TimerFires ids) w = w"
  by (induction ids) (simp_all add: run_def fire_timer_def)

lemma filter_captured:
  "\<forall>t\<in>set ts. timer_id t = i \<Longrightarrow> filter (\<lambda>t. timer_id t \<noteq> i) ts = []"
  by (induction ts) auto

text \<open>
  What the visible branch does, for one listener. When the current viewport
  classification is enabled for the tab change, the handler does not raise, cancels the
  timer whose handle it captured in \<^verbatim>\<open>timeoutId\<close> (asking for the handle to be reset) and
  sets the title to the \<^verbatim>\<open>originalTitle\<close> it captured, whether or not the flash title
  had been applied; when every pending timer is the captured one, no timer is left to
  apply the flash title. When the classification is not enabled at that moment (line 57
  guards both branches), the handler does nothing.
\<close>

theorem visible_restores:
  assumes "triggerTabChange (cl_options c) = Some cfg" and "\<not> hidden w"
  shows
    "((if isDesktop (cl_options c) w then tab_desktop cfg else tab_mobile cfg) \<longrightarrow>
        snd (handleVisibilityChange c w) = None \<and>
        title (fst (handleVisibilityChange c w)) = originalTitle (cl_state c) \<and>
        (\<forall>i. timeoutId (cl_state c) = Some i \<and> i \<noteq> 0 \<longrightarrow>
           timers (fst (handleVisibilityChange c w)) = filter (\<lambda>t. timer_id t \<noteq> i) (timers w) \<and>
           queue (fst (handleVisibilityChange c w)) = queue w @ [SetTimeoutId None]) \<and>
        ((\<forall>t\<in>set (timers w). timeoutId (cl_state c) = Some (timer_id t) \<and> timer_id t \<noteq> 0) \<longrightarrow>
           (\<forall>ids. title (run (map TimerFires ids) (fst (handleVisibilityChange c w)))
                    = originalTitle (cl_state c)))) \<and>
     (\<not> (if isDesktop (cl_options c) w then tab_desktop cfg else tab_mobile cfg) \<longrightarrow>
        handleVisibilityChange c w = (w, None))"
proof -
  let ?w = "fst (handleVisibilityChange c w)"
  let ?ok = "if isDesktop (cl_options c) w then tab_desktop cfg else tab_mobile cfg"
  have off: "\<not> ?ok \<Longrightarrow> handleVisibilityChange c w = (w, None)"
    using assms by (auto simp: handleVisibilityChange_def Let_def split: if_splits)
  have err: "?ok \<Longrightarrow> snd (handleVisibilityChange c w) = None"
    and tit: "?ok \<Longrightarrow> title ?w = originalTitle (cl_state c)"
    using assms
    by (auto simp: handleVisibilityChange_def clearTimeout_def set_state_def Let_def
        split: if_splits option.splits)
  have clr: "?ok \<Longrightarrow> timeoutId (cl_state c) = Some i \<Longrightarrow> i \<noteq> 0 \<Longrightarrow>
      timers ?w = filter (\<lambda>t. timer_id t \<noteq> i) (timers w) \<and>
      queue ?w = queue w @ [SetTimeoutId None]" for i
    using assms
    by (auto simp: handleVisibilityChange_def clearTimeout_def set_state_def Let_def
        split: if_splits)
  have none: "?ok \<Longrightarrow> timeoutId (cl_state c) = None \<Longrightarrow> timers ?w = timers w"
    using assms
    by (auto simp: handleVisibilityChange_def Let_def split: if_splits)
  have never: "title (run (map TimerFires ids) ?w) = originalTitle (cl_state c)"
    if ok: "?ok"
      and cap: "\<forall>t\<in>set (timers w). timeoutId (cl_state c) = Some (timer_id t) \<and> timer_id t \<noteq> 0"
    for ids
  proof -
    have "timers ?w = []"
    proof (cases "timers w")
      case Nil
      show ?thesis
      proof (cases "timeoutId (cl_state c)")
        case None
        with none [OF ok] Nil show ?thesis by simp
      next
        case (Some i)
        show ?thesis
        proof (cases "i = 0")
          case True
          with Some Nil assms ok show ?thesis
            by (auto simp: handleVisibilityChange_def Let_def split: if_splits)
        next
          case False
          with clr [OF ok Some] Nil show ?thesis by simp
        qed
      qed
    next
      case (Cons t ts)
      with cap have i: "timeoutId (cl_state c) = Some (timer_id t)" "timer_id t \<noteq> 0" by auto
      from cap i have "\<forall>u\<in>set (timers w). timer_id u = timer_id t" by auto
      with clr [OF ok i] show ?thesis by (simp add: filter_captured)
    qed
    with tit [OF ok] show ?thesis by (simp add: run_timers_none)
  qed
  from off err tit clr never show ?thesis by blast
qed

text \<open>
  The handler registered after a hide on a desktop page, with the timer of that hide
  still pending: the return to the visible state cancels it, and the title stays.
\<close>

theorem visible_restores_witness:
  "timers (fst (handleVisibilityChange
      \<lparr>cl_options = default_options,
       cl_state = \<lparr>hasTriggered = False, originalTitle = ''Home'', timeoutId = Some 1\<rparr>\<rparr>
      ((page 1024 768 0 2000 False ''Home'' empty_store)
         \<lparr>timers := [\<lparr>timer_id = 1, timer_delay = Num 200, timer_title = ''We miss you!''\<rparr>],
          lastTimer := 1\<rparr>))) = [] \<and>
   title (run (map TimerFires [1]) (fst (handleVisibilityChange
      \<lparr>cl_options = default_options,
       cl_state = \<lparr>hasTriggered = False, originalTitle = ''Home'', timeoutId = Some 1\<rparr>\<rparr>
      ((page 1024 768 0 2000 False ''Home'' empty_store)
         \<lparr>timers := [\<lparr>timer_id = 1, timer_delay = Num 200, timer_title = ''We miss you!''\<rparr>],
          lastTimer := 1\<rparr>)))) = ''Home''"
proof -
  let ?c = "\<lparr>cl_options = default_options,
       cl_state = \<lparr>hasTriggered = False, originalTitle = ''Home'', timeoutId = Some 1\<rparr>\<rparr>"
  let ?cfg = "\<lparr>tab_mobile = False, tab_desktop = True, tab_delay = Some (Num 200),
       tab_title = Some ''We miss you!''\<rparr>"
  let ?w = "(page 1024 768 0 2000 False ''Home'' empty_store)
         \<lparr>timers := [\<lparr>timer_id = 1, timer_delay = Num 200, timer_title = ''We miss you!''\<rparr>],
          lastTimer := 1\<rparr>"
  have a: "triggerTabChange (cl_options ?c) = Some ?cfg"
    by (simp add: default_options_def)
  have b: "\<not> hidden ?w"
    by (simp add: page_def)
  have d: "if isDesktop (cl_options ?c) ?w then tab_desktop ?cfg else tab_mobile ?cfg"
    by (simp add: isDesktop_def js_gt_def num_or_def default_options_def page_def)
  have t: "timers ?w = [\<lparr>timer_id = 1, timer_delay = Num 200, timer_title = ''We miss you!''\<rparr>]"
    by (simp add: page_def)
  note v = visible_restores [OF a b]
  from v d have 1: "timers (fst (handleVisibilityChange ?c ?w)) = filter (\<lambda>t. timer_id t \<noteq> 1) (timers ?w)"
    by simp
  from v d t have "\<forall>ids. title (run (map TimerFires ids) (fst (handleVisibilityChange ?c ?w)))
      = originalTitle (cl_state ?c)"
    by simp
  then have "title (run (map TimerFires [1]) (fst (handleVisibilityChange ?c ?w)))
      = originalTitle (cl_state ?c)"
    by (rule spec)
  then have 2: "title (run (map TimerFires [1]) (fst (handleVisibilityChange ?c ?w))) = ''Home''"
    by (simp del: list.map)
  from 1 t have "timers (fst (handleVisibilityChange ?c ?w)) = []"
    by simp
  with 2 show ?thesis
    by (simp del: list.map)
qed

text \<open>
  The guard of line 57 at work. Default options on a desktop page: the tab is hidden (the
  timer is scheduled), the window becomes 400 wide, the tab is shown again before the
  delay has elapsed; the handler does nothing, the timer fires, and the visible tab
  carries the flash title.
\<close>

theorem return_while_disabled:
  "hidden (run_sync [VisibilityChange True, Resize 400, VisibilityChange False, TimerFires 1]
     (mount None (page 1024 768 0 2000 False ''Home'' empty_store))) = False \<and>
   title (run_sync [VisibilityChange True, Resize 400, VisibilityChange False, TimerFires 1]
     (mount None (page 1024 768 0 2000 False ''Home'' empty_store))) = ''We miss you!''"
  by code_simp

section \<open>Defects\<close>

text \<open>
  C1 fails on the code. The handlers set the flag and call \<^verbatim>\<open>onTrigger\<close>, and never read
  the flag: it is read only when the effect runs again (line 79), which React does some
  time after the handler has returned. Default options on a desktop page: two pointer
  moves into the corner that are delivered before that render call \<^verbatim>\<open>onTrigger\<close> twice;
  with the render between them, once.
\<close>

theorem double_trigger:
  "onTrigger_calls
     (run [MouseMove 100 10, MouseMove 100 10]
        (mount None (page 1024 768 0 2000 False ''Home'' empty_store))) = 2 \<and>
   onTrigger_calls
     (run [MouseMove 100 10, Render, MouseMove 100 10]
        (mount None (page 1024 768 0 2000 False ''Home'' empty_store))) = 1"
  by code_simp

text \<open>
  C2 fails on the code. The \<^verbatim>\<open>return\<close> of line 80 returns no cleanup function, after
  the visibility listener was added at line 76: an activation that finds the gate
  satisfied never removes it. Default options, the session marker present: after the
  unmount two visibility listeners (of the two effect runs of the mount) are still
  registered, and a hidden tab after the unmount schedules their timers and gets the
  flash title. A hook that fired during its lifetime leaves one listener behind. On the
  other path, a hook that has not triggered, the cleanup leaves none.
\<close>

theorem listener_leak:
  "length (visibilitychange
     (run_sync [Unmount] (mount None (page 1024 768 0 2000 False ''Home'' marked_store)))) = 2 \<and>
   title (run_sync [Unmount, VisibilityChange True, TimerFires 1]
     (mount None (page 1024 768 0 2000 False ''Home'' marked_store))) = ''We miss you!'' \<and>
   length (visibilitychange
     (run_sync [MouseMove 100 10, Unmount]
        (mount None (page 1024 768 0 2000 False ''Home'' empty_store)))) = 1 \<and>
   visibilitychange
     (run_sync [Unmount] (mount None (page 1024 768 0 2000 False ''Home'' empty_store))) = []"
  by code_simp

text \<open>
  C6 fails on the code. The hidden branch (lines 58 to 63) schedules a timer and
  overwrites the one handle the state keeps; it cancels nothing. With the session marker
  present one hide event leaves two timers pending, the listener leaked by the defect of
  C2 scheduling a timer of its own; the return to the visible state then cancels only
  the timer whose handle the state kept, and the other one flashes the title of the
  visible tab. Without any leaked listener, a return to the visible state at a width
  whose class is disabled cancels nothing, and the next hide event adds a second timer;
  so do two hide events in a row.
\<close>

theorem stacked_timers:
  "map timer_id (timers (run_sync [VisibilityChange True]
     (mount None (page 1024 768 0 2000 False ''Home'' marked_store)))) = [1, 2] \<and>
   map timer_id (timers (run_sync [VisibilityChange True, VisibilityChange False]
     (mount None (page 1024 768 0 2000 False ''Home'' marked_store)))) = [1] \<and>
   title (run_sync [VisibilityChange True, VisibilityChange False, TimerFires 1]
     (mount None (page 1024 768 0 2000 False ''Home'' marked_store))) = ''We miss you!'' \<and>
   map timer_id (timers (run_sync
       [VisibilityChange True, Resize 400, VisibilityChange False, Resize 1024,
        VisibilityChange True]
     (mount None (page 1024 768 0 2000 False ''Home'' empty_store)))) = [1, 2] \<and>
   map timer_id (timers (run_sync [VisibilityChange True, VisibilityChange True]
     (mount None (page 1024 768 0 2000 False ''Home'' empty_store)))) = [1, 2]"
  by code_simp

text \<open>
  C7 fails on the code. Default options and a viewport 1024 wide throughout, so the
  classification is enabled at every visibility event. With the session marker present
  the listener of the first effect run was never removed (the defect of C2) and
  schedules a timer of its own at the hide event (C6); the return to the visible state,
  before the delay has elapsed, cancels only the timer whose handle the last listener
  captured, and the other timer sets the flash title on the visible tab. The same
  happens to a hook that has fired, at its second hide. On a hook that has not
  triggered the same events leave the title as it was, and restore it after a flash.
\<close>

theorem flash_after_return:
  "hidden (run_sync [VisibilityChange True, VisibilityChange False, TimerFires 1]
     (mount None (page 1024 768 0 2000 False ''Home'' marked_store))) = False \<and>
   title (run_sync [VisibilityChange True, VisibilityChange False, TimerFires 1]
     (mount None (page 1024 768 0 2000 False ''Home'' marked_store))) = ''We miss you!'' \<and>
   title (run_sync
       [MouseMove 100 10, VisibilityChange True, VisibilityChange False,
        VisibilityChange True, VisibilityChange False, TimerFires 2]
     (mount None (page 1024 768 0 2000 False ''Home'' empty_store))) = ''We miss you!'' \<and>
   title (run_sync [VisibilityChange True, VisibilityChange False, TimerFires 1]
     (mount None (page 1024 768 0 2000 False ''Home'' empty_store))) = ''Home'' \<and>
   title (run_sync [VisibilityChange True, TimerFires 1, VisibilityChange False]
     (mount None (page 1024 768 0 2000 False ''Home'' empty_store))) = ''Home''"
  by code_simp

text \<open>
  C8 fails on the code. Line 47 runs in every run of the effect body, not only in the
  first: whenever the effect runs again, the state cell takes the title the document
  has at that moment. Default options on a desktop page: the tab is hidden, the timer
  fires, the host renders the component again while the flash title is shown; the
  recorded title is now the flash title, and the return to the visible state restores
  the flash title.
\<close>

theorem title_recaptured:
  "originalTitle (state (run_sync [VisibilityChange True, TimerFires 1]
     (mount None (page 1024 768 0 2000 False ''Home'' empty_store)))) = ''Home'' \<and>
   originalTitle (state (run_sync [VisibilityChange True, TimerFires 1, Rerender None]
     (mount None (page 1024 768 0 2000 False ''Home'' empty_store)))) = ''We miss you!'' \<and>
   title (run_sync [VisibilityChange True, TimerFires 1, Rerender None, VisibilityChange False]
     (mount None (page 1024 768 0 2000 False ''Home'' empty_store))) = ''We miss you!''"
  by code_simp

end
